theory Spec2Isabelle
  imports Complex_Main "HOL-Library.Sublist"
begin

section \<open>JavaScript values\<close>

text \<open>
  The scripts read a spreadsheet as rows of cells. A cell is absent (\<open>null\<close> or
  \<open>undefined\<close>, which the scripts never tell apart: every test is \<open>== null\<close>, a
  truthiness test or a \<open>typeof\<close>), a string or a number.

  Strings are lists of code units; the model covers the code units below 256 (Latin-1).
  A number is a finite value, an infinity or NaN. Finite values are exact rationals:
  rounding to the nearest binary64 value is not modelled (no branch of the scripts
  depends on it), overflow to an infinity and underflow to zero are (\<open>to_double\<close>).
  Minus zero is identified with zero: the scripts cannot tell them apart.
\<close>

datatype jsnum = Fin rat | PosInf | NegInf | NaN

datatype jsval = JNull | JStr string | JNum jsnum

text \<open>Truthiness: \<open>!v\<close> is \<open>\<not> truthy v\<close>.\<close>

fun truthy :: "jsval \<Rightarrow> bool" where
  "truthy JNull = False"
| "truthy (JStr s) = (s \<noteq> [])"
| "truthy (JNum (Fin q)) = (q \<noteq> 0)"
| "truthy (JNum NaN) = False"
| "truthy (JNum _) = True"

text \<open>A value that is \<open>null\<close> or a string, as \<open>clean\<close> returns it.\<close>

fun truthy_s :: "string option \<Rightarrow> bool" where
  "truthy_s None = False"
| "truthy_s (Some s) = (s \<noteq> [])"

subsection \<open>Characters\<close>

definition is_digit :: "char \<Rightarrow> bool" where
  "is_digit c = (c \<in> set ''0123456789'')"

text \<open>
  \<open>\s\<close> and the characters \<open>trim\<close> strips: tab, line feed, vertical tab, form feed,
  carriage return, space and no-break space (the others are above code unit 255).
\<close>

definition is_space :: "char \<Rightarrow> bool" where
  "is_space c = (c \<in> set [CHR 0x09, CHR 0x0A, CHR 0x0B, CHR 0x0C, CHR 0x0D, CHR 0x20, CHR 0xA0])"

definition is_lower :: "char \<Rightarrow> bool" where
  "is_lower c = (c \<in> set ''abcdefghijklmnopqrstuvwxyz'')"

definition is_upper :: "char \<Rightarrow> bool" where
  "is_upper c = (c \<in> set ''ABCDEFGHIJKLMNOPQRSTUVWXYZ'')"

definition is_alpha :: "char \<Rightarrow> bool" where
  "is_alpha c = (is_lower c \<or> is_upper c)"

text \<open>\<open>\w\<close>: letters, digits and the underscore.\<close>

definition is_word :: "char \<Rightarrow> bool" where
  "is_word c = (is_alpha c \<or> is_digit c \<or> c = CHR ''_'')"

text \<open>
  \<open>toLowerCase\<close> on one code unit: A-Z, and the Latin-1 capitals 0xC0-0xDE but the
  multiplication sign 0xD7, move up by 32.
\<close>

definition lower_char :: "char \<Rightarrow> char" where
  "lower_char c =
     (let n = (of_char c :: nat) in
      if (65 \<le> n \<and> n \<le> 90) \<or> (192 \<le> n \<and> n \<le> 222 \<and> n \<noteq> 215)
      then char_of (n + 32) else c)"

definition toLowerCase :: "string \<Rightarrow> string" where
  "toLowerCase s = map lower_char s"

text \<open>
  \<open>toUpperCase\<close>: a-z and 0xE0-0xFE but the division sign 0xF7 move down by 32; the
  sharp s 0xDF becomes \<open>SS\<close>. The micro sign 0xB5 and y with diaeresis 0xFF have
  capitals above code unit 255; they are left as they are (neither capital is an
  ASCII letter, which is all the one use of \<open>toUpperCase\<close> looks at).
\<close>

definition upper_char :: "char \<Rightarrow> string" where
  "upper_char c =
     (let n = (of_char c :: nat) in
      if (97 \<le> n \<and> n \<le> 122) \<or> (224 \<le> n \<and> n \<le> 254 \<and> n \<noteq> 247)
      then [char_of (n - 32)]
      else if n = 223 then ''SS'' else [c])"

definition toUpperCase :: "string \<Rightarrow> string" where
  "toUpperCase s = concat (map upper_char s)"

text \<open>
  Two code units match under the \<open>i\<close> flag when their canonical forms agree. For an
  ASCII pattern character that is ASCII case-insensitive equality: no code unit
  above 127 canonicalises to an ASCII one.
\<close>

definition ascii_lower :: "char \<Rightarrow> char" where
  "ascii_lower c = (if is_upper c then char_of ((of_char c :: nat) + 32) else c)"

definition eq_ci :: "char \<Rightarrow> char \<Rightarrow> bool" where
  "eq_ci p c = (ascii_lower p = ascii_lower c)"

subsection \<open>Strings\<close>

definition trim :: "string \<Rightarrow> string" where
  "trim s = rev (dropWhile is_space (rev (dropWhile is_space s)))"

definition startsWith :: "string \<Rightarrow> string \<Rightarrow> bool" where
  "startsWith s p = (take (length p) s = p)"

text \<open>\<open>s.includes(p)\<close>: \<open>p\<close> starts at some position of \<open>s\<close>.\<close>

definition str_includes :: "string \<Rightarrow> string \<Rightarrow> bool" where
  "str_includes s p = list_ex (\<lambda>t. startsWith t p) (suffixes s)"

subsection \<open>Numbers to strings\<close>

definition digit_char :: "nat \<Rightarrow> char" where
  "digit_char d = char_of (48 + d)"

fun digits_of :: "nat \<Rightarrow> string" where
  "digits_of n = (if n < 10 then [digit_char n] else digits_of (n div 10) @ [digit_char (n mod 10)])"

declare digits_of.simps [simp del]

text \<open>The digits after the decimal point of \<open>n / d\<close> (with \<open>n < d\<close>), at most \<open>k\<close> of them.\<close>

fun frac_digits :: "nat \<Rightarrow> nat \<Rightarrow> nat \<Rightarrow> string" where
  "frac_digits 0 n d = []"
| "frac_digits (Suc k) n d =
     (if n = 0 then [] else digit_char ((10 * n) div d) # frac_digits k ((10 * n) mod d) d)"

text \<open>
  \<open>String(x)\<close> for a number: \<open>NaN\<close>, \<open>Infinity\<close>, \<open>-Infinity\<close>; an integer in decimal;
  any other value as its decimal expansion (cut after 20 places). JavaScript prints
  the shortest decimal that reads back as the same binary64 value and changes to
  exponent notation from \<open>1e21\<close> on and below \<open>1e-6\<close>: the model agrees with it on
  the decimal values of at most 17 significant digits between those bounds, which is
  what a rate schedule holds, and differs from it outside them. Both scripts build
  their keys from this one string, and every form it can take starts with a digit or
  a minus sign, or is \<open>NaN\<close> or \<open>Infinity\<close>.
\<close>

definition num_to_string :: "jsnum \<Rightarrow> string" where
  "num_to_string x =
     (case x of
        NaN \<Rightarrow> ''NaN''
      | PosInf \<Rightarrow> ''Infinity''
      | NegInf \<Rightarrow> ''-Infinity''
      | Fin q \<Rightarrow>
          (let (a, b) = quotient_of \<bar>q\<bar>;
               ip = nat a div nat b;
               fp = frac_digits 20 (nat a mod nat b) (nat b)
           in (if q < 0 then ''-'' else []) @ digits_of ip @ (if fp = [] then [] else CHR ''.'' # fp)))"

text \<open>\<open>String(v)\<close>.\<close>

fun js_string :: "jsval \<Rightarrow> string" where
  "js_string JNull = ''null''"
| "js_string (JStr s) = s"
| "js_string (JNum x) = num_to_string x"

subsection \<open>Strings to numbers: \<open>parseFloat\<close>\<close>

fun digit_val :: "char \<Rightarrow> nat" where
  "digit_val c = of_char c - 48"

definition nat_of_digits :: "string \<Rightarrow> nat" where
  "nat_of_digits ds = foldl (\<lambda>a c. 10 * a + digit_val c) 0 ds"

text \<open>
  A finite value as binary64 holds it, as far as the scripts can see: a magnitude of
  \<open>2^1024 - 2^970\<close> or more rounds to an infinity, one of \<open>2^-1075\<close> or less to zero.
  Between those bounds the value is kept exact and not rounded to the nearest binary64
  value (\<open>9007199254740993\<close> stays as it is, where JavaScript reads
  \<open>9007199254740992\<close>); the scripts only ask whether the result is NaN and whether
  it is a number.
\<close>

definition to_double :: "rat \<Rightarrow> jsnum" where
  "to_double v =
     (if 2 ^ 1024 - 2 ^ 970 \<le> \<bar>v\<bar> then (if v < 0 then NegInf else PosInf)
      else if \<bar>v\<bar> \<le> 1 / 2 ^ 1075 then Fin 0
      else Fin v)"

text \<open>The exponent part \<open>e\<close>, sign, digits, when it is complete; 0 otherwise.\<close>

definition exponent_of :: "string \<Rightarrow> int" where
  "exponent_of r =
     (case r of
        [] \<Rightarrow> 0
      | e # r1 \<Rightarrow>
          if e = CHR ''e'' \<or> e = CHR ''E'' then
            (case r1 of
               [] \<Rightarrow> 0
             | s # r2 \<Rightarrow>
                 if s = CHR ''-'' then
                   (if takeWhile is_digit r2 = [] then 0 else - int (nat_of_digits (takeWhile is_digit r2)))
                 else if s = CHR ''+'' then int (nat_of_digits (takeWhile is_digit r2))
                 else int (nat_of_digits (takeWhile is_digit r1)))
          else 0)"

definition pow10 :: "int \<Rightarrow> rat" where
  "pow10 e = (if 0 \<le> e then 10 ^ nat e else 1 / 10 ^ nat (- e))"

text \<open>
  \<open>parseFloat\<close>: leading white space is skipped, then the longest prefix that is a
  decimal literal is read (a sign; \<open>Infinity\<close>, or digits with an optional fraction and
  an optional exponent, or a fraction that starts with the point); what follows is
  ignored. With no such prefix the result is NaN.
\<close>

definition parseFloat :: "string \<Rightarrow> jsnum" where
  "parseFloat s =
     (let t = dropWhile is_space s;
          neg = (t \<noteq> [] \<and> hd t = CHR ''-'');
          u = (if t \<noteq> [] \<and> (hd t = CHR ''-'' \<or> hd t = CHR ''+'') then tl t else t)
      in if startsWith u ''Infinity'' then (if neg then NegInf else PosInf)
         else
           let ip = takeWhile is_digit u;
               r1 = dropWhile is_digit u;
               pt = (r1 \<noteq> [] \<and> hd r1 = CHR ''.'');
               fp = (if pt then takeWhile is_digit (tl r1) else []);
               r2 = (if pt then dropWhile is_digit (tl r1) else r1)
           in if ip = [] \<and> fp = [] then NaN
              else
                let m = of_nat (nat_of_digits ip) + of_nat (nat_of_digits fp) / 10 ^ length fp;
                    v = m * pow10 (exponent_of r2)
                in to_double (if neg then - v else v))"

definition isNaN :: "jsnum \<Rightarrow> bool" where
  "isNaN x = (x = NaN)"


section \<open>Regular expressions\<close>

text \<open>
  The patterns of the scripts use literals, character classes, alternation, \<open>?\<close>, and
  \<open>*\<close>, \<open>+\<close> and \<open>{4,}\<close> on character classes only. \<open>Many P\<close> is \<open>[P]*\<close>.
  A test succeeds when some way of matching exists, so matching is membership in the
  pattern's language; it is decided by derivatives.
\<close>

datatype rexp =
    Zero
  | One
  | Atom "char \<Rightarrow> bool"
  | Alt rexp rexp
  | Seq rexp rexp
  | Many "char \<Rightarrow> bool"

fun nullable :: "rexp \<Rightarrow> bool" where
  "nullable Zero = False"
| "nullable One = True"
| "nullable (Atom P) = False"
| "nullable (Alt r s) = (nullable r \<or> nullable s)"
| "nullable (Seq r s) = (nullable r \<and> nullable s)"
| "nullable (Many P) = True"

fun deriv :: "char \<Rightarrow> rexp \<Rightarrow> rexp" where
  "deriv c Zero = Zero"
| "deriv c One = Zero"
| "deriv c (Atom P) = (if P c then One else Zero)"
| "deriv c (Alt r s) = Alt (deriv c r) (deriv c s)"
| "deriv c (Seq r s) =
     (if nullable r then Alt (Seq (deriv c r) s) (deriv c s) else Seq (deriv c r) s)"
| "deriv c (Many P) = (if P c then Many P else Zero)"

text \<open>The whole string matches: \<open>/^r$/\<close>.\<close>

fun matches :: "rexp \<Rightarrow> string \<Rightarrow> bool" where
  "matches r [] = nullable r"
| "matches r (c # cs) = matches (deriv c r) cs"

text \<open>A prefix matches: \<open>/^r/\<close>.\<close>

definition re_prefix :: "rexp \<Rightarrow> string \<Rightarrow> bool" where
  "re_prefix r s = list_ex (matches r) (prefixes s)"

text \<open>Some substring matches: \<open>/r/\<close>.\<close>

definition re_search :: "rexp \<Rightarrow> string \<Rightarrow> bool" where
  "re_search r s = list_ex (re_prefix r) (suffixes s)"

definition Opt :: "rexp \<Rightarrow> rexp" where
  "Opt r = Alt r One"

definition Chr :: "char \<Rightarrow> rexp" where
  "Chr c = Atom (\<lambda>x. x = c)"

text \<open>A literal string, and a literal string under the \<open>i\<close> flag.\<close>

definition Lit :: "string \<Rightarrow> rexp" where
  "Lit s = foldr (\<lambda>c r. Seq (Chr c) r) s One"

definition LitI :: "string \<Rightarrow> rexp" where
  "LitI s = foldr (\<lambda>c r. Seq (Atom (eq_ci c)) r) s One"

text \<open>An alternation of several patterns.\<close>

definition Alts :: "rexp list \<Rightarrow> rexp" where
  "Alts rs = foldr Alt rs Zero"

text \<open>\<open>.\<close>: any code unit but a line terminator.\<close>

definition Dot :: rexp where
  "Dot = Atom (\<lambda>c. c \<noteq> CHR 0x0A \<and> c \<noteq> CHR 0x0D)"


section \<open>Object property lookup\<close>

text \<open>
  The category tables are object literals, read with \<open>TABLE[key]\<close>. Such a read finds
  the table's own entries and, for a key the table does not have, the members every
  object inherits (\<open>constructor\<close>, \<open>toString\<close>, ...), which are functions: truthy,
  and not strings.
\<close>

datatype jsprop = PStr string | PInherited string

definition object_prototype_keys :: "string list" where
  "object_prototype_keys =
     [''constructor'', ''__defineGetter__'', ''__defineSetter__'', ''hasOwnProperty'',
      ''__lookupGetter__'', ''__lookupSetter__'', ''isPrototypeOf'', ''propertyIsEnumerable'',
      ''toString'', ''valueOf'', ''__proto__'', ''toLocaleString'']"

definition obj_get :: "(string \<times> string) list \<Rightarrow> string \<Rightarrow> jsprop option" where
  "obj_get tbl k =
     (case map_of tbl k of
        Some v \<Rightarrow> Some (PStr v)
      | None \<Rightarrow> if k \<in> set object_prototype_keys then Some (PInherited k) else None)"

fun prop_truthy :: "jsprop option \<Rightarrow> bool" where
  "prop_truthy None = False"
| "prop_truthy (Some (PStr v)) = (v \<noteq> [])"
| "prop_truthy (Some (PInherited k)) = True"

text \<open>\<open>a || b || 'General'\<close>.\<close>

definition or_general :: "jsprop option \<Rightarrow> jsprop option \<Rightarrow> jsprop" where
  "or_general a b =
     (if prop_truthy a then the a else if prop_truthy b then the b else PStr ''General'')"

section \<open>The MongoDB importer (src/unnamed/part_000)\<close>

subsection \<open>Category map\<close>

definition CATEGORY_MAP :: "(string \<times> string) list" where
  "CATEGORY_MAP =
     [(''1'', ''Labour Rates''),
      (''2'', ''Earth Work''),
      (''3'', ''Rock Cutting & Blasting''),
      (''3a'', ''Rock Cutting & Blasting''),
      (''3b'', ''Rock Cutting & Blasting''),
      (''3c'', ''Rock Cutting & Blasting''),
      (''3d'', ''Rock Cutting & Blasting''),
      (''3e'', ''Rock Cutting & Blasting''),
      (''3f'', ''Rock Cutting & Blasting''),
      (''4'', ''Loading & Unloading''),
      (''5'', ''Loading & Unloading''),
      (''6'', ''Loading & Unloading''),
      (''7'', ''Loading & Unloading''),
      (''8a'', ''Pipe Laying''),
      (''8b'', ''Pipe Laying''),
      (''9a'', ''Pipe Jointing''),
      (''9b'', ''Pipe Jointing''),
      (''10'', ''Pipe Jointing''),
      (''11a'', ''RCC Pipe Laying''),
      (''11b'', ''RCC Pipe Laying''),
      (''12'', ''GI/PVC/HDPE Pipe Laying''),
      (''13'', ''AC Pressure Pipe Laying''),
      (''14'', ''AC Pressure Pipe Jointing''),
      (''15'', ''Stoneware Pipe Laying''),
      (''16'', ''PVC Pipe Laying & Testing''),
      (''17'', ''Valve Installation Labour''),
      (''18a'', ''Air Valve Labour''),
      (''18b'', ''Kinetic Air Valve Labour''),
      (''19'', ''Fire Hydrant Labour''),
      (''20'', ''CI/DI Pipe Uprooting''),
      (''21'', ''RCC Pipe Uprooting''),
      (''22'', ''GI/PVC/HDPE Pipe Removal''),
      (''23'', ''CI/DI Pipe Cutting''),
      (''24'', ''AC Pipe Cutting''),
      (''25'', ''Drilling & Tapping''),
      (''26'', ''Road Surface Cutting''),
      (''27'', ''Dewatering''),
      (''28'', ''Shoring & Strutting''),
      (''29'', ''Barricading & Watching''),
      (''30'', ''Underwater Trench Excavation''),
      (''31'', ''Infiltration Gallery''),
      (''32'', ''Infiltration Gallery''),
      (''33'', ''Centering & Scaffolding''),
      (''34'', ''Lift & Delift of Materials''),
      (''35'', ''Fixtures Labour''),
      (''36'', ''Sanitary Fixtures Labour''),
      (''37'', ''Sanitary Fixtures Labour''),
      (''38'', ''Sanitary Fixtures Labour''),
      (''39'', ''Sanitary Fixtures Labour''),
      (''40'', ''Trench Refilling''),
      (''41a'', ''Isolated Scattered Works''),
      (''41b'', ''Repairs to Mains''),
      (''42'', ''Silt & Sludge Removal''),
      (''43'', ''Pipe Conveyance''),
      (''44'', ''Pipe Conveyance''),
      (''45'', ''Pipe Conveyance''),
      (''46'', ''Pipe Conveyance''),
      (''47'', ''Pipe Conveyance''),
      (''48'', ''Well Sinking''),
      (''49'', ''Well Sinking''),
      (''50'', ''Open Well Excavation''),
      (''51'', ''OHSR/ELSR Rates (Kilo Litres)''),
      (''52'', ''OHSR/ELSR Rates (Litres)''),
      (''53'', ''Rapid Gravity Filtration Plant'')]"

subsection \<open>Helpers\<close>

text \<open>\<open>replace(/\s+/g, ' ')\<close>: every run of white space becomes one space. The flag says
  that the previous code unit was white space.\<close>

fun collapse_from :: "bool \<Rightarrow> string \<Rightarrow> string" where
  "collapse_from in_run [] = []"
| "collapse_from in_run (c # cs) =
     (if is_space c then (if in_run then collapse_from True cs else CHR '' '' # collapse_from True cs)
      else c # collapse_from False cs)"

definition collapse_ws :: "string \<Rightarrow> string" where
  "collapse_ws s = collapse_from False s"

text \<open>\<open>clean\<close>: \<open>v == null ? null : String(v).trim().replace(/\s+/g, ' ') || null\<close>.\<close>

definition clean :: "jsval \<Rightarrow> string option" where
  "clean v =
     (if v = JNull then None
      else let s = collapse_ws (trim (js_string v)) in if s = [] then None else Some s)"

text \<open>\<open>parseRate\<close>: null, a number, or the trimmed string when it does not read as a number.\<close>

definition parseRate :: "jsval \<Rightarrow> jsval" where
  "parseRate v =
     (case v of
        JNull \<Rightarrow> JNull
      | JNum x \<Rightarrow> JNum x
      | JStr t \<Rightarrow>
          (let s = trim t in
           if s = [] then JNull
           else let n = parseFloat s in if isNaN n then JStr s else JNum n))"

text \<open>\<open>replace(/[\s.]+/g, '')\<close>: the white space and the dots are taken out.\<close>

definition strip_ws_dots :: "string \<Rightarrow> string" where
  "strip_ws_dots s = filter (\<lambda>c. \<not> is_space c \<and> c \<noteq> CHR ''.'') s"

definition snoKey :: "jsval \<Rightarrow> string option" where
  "snoKey sno = (if sno = JNull then None else Some (toLowerCase (strip_ws_dots (js_string sno))))"

text \<open>\<open>/^\d+\s*\.?\s*[a-z]?\.?$/i\<close>\<close>

definition header_re :: rexp where
  "header_re =
     Seq (Atom is_digit) (Seq (Many is_digit)
       (Seq (Many is_space) (Seq (Opt (Chr CHR ''.''))
         (Seq (Many is_space) (Seq (Opt (Atom is_alpha)) (Opt (Chr CHR ''.'')))))))"

definition isNumber :: "jsval \<Rightarrow> bool" where
  "isNumber v = (case v of JNum x \<Rightarrow> True | _ \<Rightarrow> False)"

definition isSectionHeader :: "jsval \<Rightarrow> string option \<Rightarrow> jsval \<Rightarrow> bool" where
  "isSectionHeader sno unit rate =
     (if sno = JNull then False
      else if isNumber sno then unit = None \<and> rate = JNull
      else matches header_re (trim (js_string sno)) \<and> unit = None \<and> rate = JNull)"

text \<open>\<open>/^(8a|8b|9a|9b|11a|11b|18a|18b|41a|41b)$/i\<close>\<close>

definition compound_re :: rexp where
  "compound_re =
     Alts (map LitI [''8a'', ''8b'', ''9a'', ''9b'', ''11a'', ''11b'', ''18a'', ''18b'', ''41a'', ''41b''])"

definition isSimpleCompound :: "jsval \<Rightarrow> bool" where
  "isSimpleCompound sno =
     (if \<not> truthy sno then False
      else matches compound_re (toLowerCase (strip_ws_dots (js_string sno))))"

text \<open>\<open>/^[a-zA-Z]$/\<close>\<close>

definition isSubSection :: "jsval \<Rightarrow> string option \<Rightarrow> jsval \<Rightarrow> bool" where
  "isSubSection sno unit rate =
     (sno \<noteq> JNull \<and> matches (Atom is_alpha) (trim (js_string sno)) \<and> unit = None \<and> rate = JNull)"

text \<open>
  \<open>isSkip\<close>: \<open>/^DIAMETER OF PIPE/i\<close>, \<open>/^DIA (in|of)/i\<close>, \<open>/^NOTE\b/i\<close>, \<open>/^\s{4,}/\<close>.
  After \<open>NOTE\<close> the word boundary holds at the end of the string and before a code
  unit that is not a word character.
\<close>

definition isSkip :: "string option \<Rightarrow> bool" where
  "isSkip desc =
     (if \<not> truthy_s desc then False
      else
        re_prefix (LitI ''DIAMETER OF PIPE'') (the desc) \<or>
        re_prefix (Seq (LitI ''DIA '') (Alt (LitI ''in'') (LitI ''of''))) (the desc) \<or>
        (matches (LitI ''NOTE'') (the desc) \<or>
         re_prefix (Seq (LitI ''NOTE'') (Atom (\<lambda>c. \<not> is_word c))) (the desc)) \<or>
        re_prefix (Seq (Atom is_space) (Seq (Atom is_space) (Seq (Atom is_space)
                    (Seq (Atom is_space) (Many is_space))))) (the desc))"

text \<open>\<open>/G\.I\. PIPES|PVC.HDPE pipes/i\<close>\<close>

definition auto_re :: rexp where
  "auto_re = Alt (LitI ''G.I. PIPES'') (Seq (LitI ''PVC'') (Seq Dot (LitI ''HDPE pipes'')))"


subsection \<open>Documents\<close>

text \<open>\<open>rate_type\<close>: the strings \<open>'numeric'\<close> and \<open>'formula'\<close>.\<close>

datatype rtype = Numeric | Formula

record rate_item =
  dimension :: "string option"
  item_unit :: "string option"
  item_rate :: jsval
  item_rate_type :: rtype

record sub_section =
  sub_id :: string
  description :: "string option"
  sub_items :: "rate_item list"

record ssr_section =
  item_no :: jsval
  item_key :: "string option"
  category :: jsprop
  title :: "string option"
  sec_unit :: "string option"
  sec_rate :: jsval
  sec_rate_type :: "rtype option"
  sub_sections :: "sub_section list"
  sec_items :: "rate_item list"

text \<open>\<open>typeof rate === 'number' ? 'numeric' : 'formula'\<close>\<close>

definition rateTypeOf :: "jsval \<Rightarrow> rtype" where
  "rateTypeOf rate = (if isNumber rate then Numeric else Formula)"

text \<open>\<open>CATEGORY_MAP[key]\<close> with a key that may be null reads the property \<open>null\<close>.\<close>

definition buildSection :: "jsval \<Rightarrow> string option \<Rightarrow> string option \<Rightarrow> string option \<Rightarrow> jsval \<Rightarrow> ssr_section" where
  "buildSection sno key desc unit rate =
     \<lparr> item_no = (if isNumber sno then sno else JStr (js_string sno)),
       item_key = key,
       category = or_general (obj_get CATEGORY_MAP (case key of None \<Rightarrow> ''null'' | Some k \<Rightarrow> k))
                             (obj_get CATEGORY_MAP (js_string sno)),
       title = desc,
       sec_unit = unit,
       sec_rate = rate,
       sec_rate_type = (if rate = JNull then None else Some (rateTypeOf rate)),
       sub_sections = [],
       sec_items = [] \<rparr>"

text \<open>
  \<open>replace(/\s*mm$/i, '')\<close>: when the string ends with \<open>mm\<close>, this ending goes, with
  all the white space right before it (the leftmost match starts where that run starts).
\<close>

definition strip_ws_mm :: "string \<Rightarrow> string" where
  "strip_ws_mm s =
     (if re_prefix (LitI ''mm'') (rev s) then rev (dropWhile is_space (drop 2 (rev s))) else s)"

definition buildRateItem :: "string option \<Rightarrow> string option \<Rightarrow> jsval \<Rightarrow> rate_item" where
  "buildRateItem desc unit rate =
     \<lparr> dimension = (if truthy_s desc then Some (trim (strip_ws_mm (the desc))) else None),
       item_unit = (if truthy_s unit then Some (trim (the unit)) else None),
       item_rate = rate,
       item_rate_type = rateTypeOf rate \<rparr>"

subsection \<open>The builder\<close>

text \<open>
  \<open>currentSection\<close> and \<open>currentSubSection\<close> are references to objects that sit in
  \<open>sections\<close> and in the current section's \<open>sub_sections\<close>: a write through one is seen
  through the other. The model keeps the position of the object instead. Reading a
  property of \<open>null\<close> or \<open>undefined\<close> raises a TypeError.
\<close>

datatype error = TypeError

record state =
  sections :: "ssr_section list"
  currentSection :: "nat option"
  currentSubSection :: "nat option"

definition init :: state where
  "init = \<lparr> sections = [], currentSection = None, currentSubSection = None \<rparr>"

text \<open>\<open>currentSection = buildSection(...); currentSubSection = null; sections.push(currentSection)\<close>\<close>

definition openSection :: "state \<Rightarrow> ssr_section \<Rightarrow> state" where
  "openSection st sec =
     st\<lparr> sections := sections st @ [sec],
         currentSection := Some (length (sections st)),
         currentSubSection := None \<rparr>"

text \<open>\<open>currentSubSection = {...}; currentSection.sub_sections.push(currentSubSection)\<close>.
  The new sub-section may depend on the current section (the \<open>auto_\<close> identifier).\<close>

definition pushSubSection :: "state \<Rightarrow> (ssr_section \<Rightarrow> sub_section) \<Rightarrow> error + state" where
  "pushSubSection st mk =
     (case currentSection st of
        None \<Rightarrow> Inl TypeError
      | Some i \<Rightarrow>
          if length (sections st) \<le> i then Inl TypeError
          else
            let sec = sections st ! i in
            Inr (st\<lparr> sections := (sections st)[i := sec\<lparr> sub_sections := sub_sections sec @ [mk sec] \<rparr>],
                     currentSubSection := Some (length (sub_sections sec)) \<rparr>))"

text \<open>\<open>currentSubSection ? currentSubSection.items : currentSection.items\<close>, changed by \<open>f\<close>.\<close>

definition updateTarget :: "state \<Rightarrow> (rate_item list \<Rightarrow> rate_item list) \<Rightarrow> error + state" where
  "updateTarget st f =
     (case currentSection st of
        None \<Rightarrow> Inl TypeError
      | Some i \<Rightarrow>
          if length (sections st) \<le> i then Inl TypeError
          else
            let sec = sections st ! i in
            (case currentSubSection st of
               None \<Rightarrow> Inr (st\<lparr> sections := (sections st)[i := sec\<lparr> sec_items := f (sec_items sec) \<rparr>] \<rparr>)
             | Some j \<Rightarrow>
                 if length (sub_sections sec) \<le> j then Inl TypeError
                 else
                   let sub = sub_sections sec ! j in
                   Inr (st\<lparr> sections := (sections st)
                          [i := sec\<lparr> sub_sections := (sub_sections sec)
                             [j := sub\<lparr> sub_items := f (sub_items sub) \<rparr>] \<rparr>] \<rparr>)))"

text \<open>The rate-only row: what it does to the target list.\<close>

definition repairTarget :: "string option \<Rightarrow> jsval \<Rightarrow> rate_item list \<Rightarrow> rate_item list" where
  "repairTarget desc rate target =
     (if truthy_s desc \<and> length target = 0 then target @ [buildRateItem desc None rate]
      else if 0 < length target \<and> item_rate (target ! (length target - 1)) = JNull
      then target[length target - 1 := (target ! (length target - 1))\<lparr> item_rate := rate \<rparr>]
      else target @ [buildRateItem desc None rate])"

text \<open>\<open>const [, rawSno, rawDesc, rawUnit, rawRate] = [...rows[i], null, null, null, null, null]\<close>\<close>

definition cell :: "jsval list \<Rightarrow> nat \<Rightarrow> jsval" where
  "cell r k = (if k < length r then r ! k else JNull)"

text \<open>\<open>rawSno != null ? (typeof rawSno === 'string' ? rawSno.trim() : rawSno) : null\<close>\<close>

definition trimSno :: "jsval \<Rightarrow> jsval" where
  "trimSno rawSno = (case rawSno of JStr s \<Rightarrow> JStr (trim s) | _ \<Rightarrow> rawSno)"

definition autoId :: "ssr_section \<Rightarrow> string" where
  "autoId sec = ''auto_'' @ num_to_string (Fin (of_nat (length (sub_sections sec) + 1)))"

text \<open>
  One turn of the loop of \<open>parseExcel\<close> is a chain of \<open>if\<close>s, each ending in
  \<open>continue\<close>. \<open>classify\<close> holds the tests of the chain in their order and names the
  branch taken; \<open>step\<close> holds the bodies. The automatic sub-section is an \<open>if\<close> inside an
  \<open>if\<close> with no \<open>else\<close>: when the description is not a pipe header the row falls through
  to the tests that follow, so both tests stand in one condition here.
\<close>

datatype role =
    Blank
  | Compound
  | SectionHeader
  | SubSectionHeader
  | AutoSubSection
  | RateItemRow
  | RateOnlyRow
  | Ignored

definition classify :: "state \<Rightarrow> jsval list \<Rightarrow> role" where
  "classify st r =
     (let sno = trimSno (cell r 1);
          desc = clean (cell r 2);
          unit = clean (cell r 3);
          rate = parseRate (cell r 4)
      in
        if \<not> truthy sno \<and> \<not> truthy_s desc \<and> \<not> truthy_s unit \<and> rate = JNull then Blank
        else if truthy sno \<and> isSimpleCompound sno then Compound
        else if isSectionHeader sno unit rate then SectionHeader
        else if isSubSection sno unit rate \<and> currentSection st \<noteq> None then SubSectionHeader
        else if currentSection st \<noteq> None \<and> \<not> truthy sno \<and> truthy_s desc \<and> \<not> isSkip desc
                \<and> re_search auto_re (the desc) then AutoSubSection
        else if currentSection st \<noteq> None \<and> truthy_s unit \<and> rate \<noteq> JNull then RateItemRow
        else if currentSection st \<noteq> None \<and> rate \<noteq> JNull \<and> \<not> truthy_s unit \<and> \<not> truthy sno
          then RateOnlyRow
        else Ignored)"

definition step :: "state \<Rightarrow> jsval list \<Rightarrow> error + state" where
  "step st r =
     (let sno = trimSno (cell r 1);
          desc = clean (cell r 2);
          unit = clean (cell r 3);
          rate = parseRate (cell r 4);
          key = snoKey sno
      in
        case classify st r of
          Blank \<Rightarrow> Inr st
        | Compound \<Rightarrow> Inr (openSection st (buildSection sno key desc unit rate))
        | SectionHeader \<Rightarrow> Inr (openSection st (buildSection sno key desc unit rate))
        | SubSectionHeader \<Rightarrow>
            pushSubSection st (\<lambda>sec. \<lparr> sub_id = trim (js_string sno), description = desc, sub_items = [] \<rparr>)
        | AutoSubSection \<Rightarrow>
            pushSubSection st (\<lambda>sec. \<lparr> sub_id = autoId sec, description = desc, sub_items = [] \<rparr>)
        | RateItemRow \<Rightarrow> updateTarget st (\<lambda>target. target @ [buildRateItem desc unit rate])
        | RateOnlyRow \<Rightarrow> updateTarget st (repairTarget desc rate)
        | Ignored \<Rightarrow> Inr st)"

fun run :: "state \<Rightarrow> jsval list list \<Rightarrow> error + state" where
  "run st [] = Inr st"
| "run st (r # rs) = (case step st r of Inl e \<Rightarrow> Inl e | Inr st' \<Rightarrow> run st' rs)"

text \<open>\<open>parseExcel\<close>, from the rows of the sheet on: the loop starts at the third row.\<close>

definition parseExcel :: "jsval list list \<Rightarrow> error + ssr_section list" where
  "parseExcel rows = (case run init (drop 2 rows) of Inl e \<Rightarrow> Inl e | Inr st \<Rightarrow> Inr (sections st))"

text \<open>The cursors point into the lists.\<close>

definition wf :: "state \<Rightarrow> bool" where
  "wf st =
     (case currentSection st of
        None \<Rightarrow> currentSubSection st = None
      | Some i \<Rightarrow>
          i < length (sections st) \<and>
          (case currentSubSection st of
             None \<Rightarrow> True
           | Some j \<Rightarrow> j < length (sub_sections (sections st ! i))))"


section \<open>The JSON converter (src/publichealth.js)\<close>

subsection \<open>Helpers\<close>

text \<open>\<open>cleanStr\<close> is \<open>clean\<close> of the importer, word for word.\<close>

definition cleanStr :: "jsval \<Rightarrow> string option" where
  "cleanStr val =
     (if val = JNull then None
      else let s = collapse_ws (trim (js_string val)) in if s = [] then None else Some s)"

text \<open>\<open>parseRate\<close> of this script: a lone \<open>-\<close> is no rate either.\<close>

definition ph_parseRate :: "jsval \<Rightarrow> jsval" where
  "ph_parseRate val =
     (case val of
        JNull \<Rightarrow> JNull
      | JNum x \<Rightarrow> JNum x
      | JStr t \<Rightarrow>
          (let str = trim t in
           if str = [] \<or> str = ''-'' then JNull
           else let num = parseFloat str in if isNaN num then JStr str else JNum num))"

definition isNoteRow :: "string option \<Rightarrow> bool" where
  "isNoteRow desc =
     (if \<not> truthy_s desc then False
      else startsWith (toUpperCase (the desc)) ''NOTE'' \<or> startsWith (trim (the desc)) ''//'')"

text \<open>\<open>Number.isInteger\<close>: a finite number that is its own floor.\<close>

definition isInteger :: "jsval \<Rightarrow> bool" where
  "isInteger v = (case v of JNum (Fin q) \<Rightarrow> of_int \<lfloor>q\<rfloor> = q | _ \<Rightarrow> False)"

definition isString :: "jsval \<Rightarrow> bool" where
  "isString v = (case v of JStr s \<Rightarrow> True | _ \<Rightarrow> False)"

text \<open>The header test of this script; its pattern is \<open>/^\d+/\<close>.\<close>

definition ph_isSectionHeader :: "jsval \<Rightarrow> string option \<Rightarrow> string option \<Rightarrow> jsval \<Rightarrow> bool" where
  "ph_isSectionHeader sno desc unit rate =
     (if \<not> truthy sno \<and> \<not> truthy_s desc then False
      else if isNumber sno \<and> isInteger sno \<and> \<not> truthy_s unit \<and> rate = JNull then True
      else if truthy sno \<and> isString sno
              \<and> re_prefix (Seq (Atom is_digit) (Many is_digit)) (trim (js_string sno))
              \<and> \<not> truthy_s unit \<and> rate = JNull then True
      else False)"

definition isSubHeader :: "jsval \<Rightarrow> string option \<Rightarrow> string option \<Rightarrow> jsval \<Rightarrow> bool" where
  "isSubHeader sno desc unit rate =
     (truthy sno \<and> isString sno \<and> matches (Atom is_alpha) (trim (js_string sno))
      \<and> \<not> truthy_s unit \<and> rate = JNull)"

text \<open>\<open>replace(/\.\s*/g, '')\<close>: every dot goes, with the white space right after it. The
  flag says that a dot, and since then white space only, came before.\<close>

fun strip_dot_ws_from :: "bool \<Rightarrow> string \<Rightarrow> string" where
  "strip_dot_ws_from after_dot [] = []"
| "strip_dot_ws_from after_dot (c # cs) =
     (if c = CHR ''.'' then strip_dot_ws_from True cs
      else if after_dot \<and> is_space c then strip_dot_ws_from True cs
      else c # strip_dot_ws_from False cs)"

text \<open>\<open>replace(/\s+/g, '')\<close>\<close>

definition strip_ws :: "string \<Rightarrow> string" where
  "strip_ws s = filter (\<lambda>c. \<not> is_space c) s"

text \<open>\<open>String(sno).replace(/\.\s*/g, '').replace(/\s+/g, '').toLowerCase()\<close>\<close>

definition headerKey :: "jsval \<Rightarrow> string" where
  "headerKey sno = toLowerCase (strip_ws (strip_dot_ws_from False (js_string sno)))"

text \<open>\<open>/^(11[ab]|41[ab]|18[ab])$/i\<close> on \<open>String(sno).replace(/[\s.]/g, '')\<close>\<close>

definition ph_compound_re :: rexp where
  "ph_compound_re =
     Alts [Seq (LitI ''11'') (Alt (LitI ''a'') (LitI ''b'')),
           Seq (LitI ''41'') (Alt (LitI ''a'') (LitI ''b'')),
           Seq (LitI ''18'') (Alt (LitI ''a'') (LitI ''b''))]"

definition isFlatCompound :: "jsval \<Rightarrow> bool" where
  "isFlatCompound sno = (truthy sno \<and> matches ph_compound_re (strip_ws_dots (js_string sno)))"

text \<open>\<open>replace(/mm$/i, '')\<close>\<close>

definition strip_mm :: "string \<Rightarrow> string" where
  "strip_mm s = (if re_prefix (LitI ''mm'') (rev s) then rev (drop 2 (rev s)) else s)"

subsection \<open>Category table\<close>

definition SECTION_CATEGORIES :: "(string \<times> string) list" where
  "SECTION_CATEGORIES =
     [(''1'', ''Labour Rates''),
      (''2'', ''Earth Work''),
      (''3'', ''Rock Cutting & Blasting''),
      (''4'', ''Loading & Unloading''),
      (''5'', ''Loading & Unloading''),
      (''6'', ''Loading & Unloading''),
      (''7'', ''Loading & Unloading''),
      (''8a'', ''Pipe Laying''),
      (''8b'', ''Pipe Laying''),
      (''9a'', ''Pipe Jointing''),
      (''9b'', ''Pipe Jointing''),
      (''10'', ''Pipe Jointing''),
      (''11a'', ''RCC Pipe Laying''),
      (''11b'', ''RCC Pipe Laying''),
      (''12'', ''GI / PVC / HDPE Pipe Laying''),
      (''13'', ''AC Pressure Pipe Laying''),
      (''14'', ''AC Pressure Pipe Jointing''),
      (''15'', ''Stoneware Pipe Laying''),
      (''16'', ''PVC Pipe Laying & Testing''),
      (''17'', ''Valve Labour''),
      (''18a'', ''Air Valve Labour''),
      (''18b'', ''Air Valve Labour''),
      (''19'', ''Fire Hydrant Labour''),
      (''20'', ''Pipe Uprooting''),
      (''21'', ''RCC Pipe Uprooting''),
      (''22'', ''GI/PVC/HDPE Pipe Removal''),
      (''23'', ''Pipe Cutting''),
      (''24'', ''Pipe Cutting''),
      (''25'', ''Drilling & Tapping''),
      (''26'', ''Road Cutting''),
      (''27'', ''Dewatering''),
      (''28'', ''Shoring & Strutting''),
      (''29'', ''Barricading''),
      (''30'', ''Underwater Excavation''),
      (''31'', ''Infiltration Gallery''),
      (''32'', ''Infiltration Gallery''),
      (''33'', ''Centering & Scaffolding''),
      (''34'', ''Lift & Delift''),
      (''35'', ''Fixtures Labour''),
      (''36'', ''Sanitary Fixtures Labour''),
      (''37'', ''Sanitary Fixtures Labour''),
      (''38'', ''Sanitary Fixtures Labour''),
      (''39'', ''Sanitary Fixtures Labour''),
      (''40'', ''Trench Refilling''),
      (''41a'', ''Miscellaneous''),
      (''41b'', ''Miscellaneous''),
      (''42'', ''Silt Removal''),
      (''43'', ''Pipe Conveyance''),
      (''44'', ''Pipe Conveyance''),
      (''45'', ''Pipe Conveyance''),
      (''46'', ''Pipe Conveyance''),
      (''47'', ''Pipe Conveyance''),
      (''48'', ''Well Sinking''),
      (''49'', ''Well Sinking''),
      (''50'', ''Well Excavation''),
      (''51'', ''OHSR / ELSR Rates (Kilo Litres)''),
      (''52'', ''OHSR / ELSR Rates (Litres)''),
      (''53'', ''Filtration Plant Construction'')]"

subsection \<open>Documents\<close>

record ph_item =
  ph_item_id :: nat
  section_item_no :: jsval
  ph_dimension :: "string option"
  ph_item_unit :: "string option"
  ph_item_rate :: jsval
  ph_item_rate_type :: rtype

record ph_sub_section =
  ph_sub_id :: string
  ph_description :: "string option"
  ph_sub_items :: "ph_item list"

record ph_section =
  ph_id :: nat
  ph_item_no :: jsval
  ph_item_key :: string
  ph_category :: jsprop
  ph_title :: "string option"
  ph_unit :: "string option"
  ph_rate :: jsval
  ph_sub_sections :: "ph_sub_section list"
  ph_items :: "ph_item list"
  ph_notes :: "string list"

record ph_state =
  ph_sections :: "ph_section list"
  ph_currentSection :: "nat option"
  ph_currentSubSection :: "nat option"
  sectionIdCounter :: nat
  itemIdCounter :: nat

definition ph_init :: ph_state where
  "ph_init = \<lparr> ph_sections = [], ph_currentSection = None, ph_currentSubSection = None,
               sectionIdCounter = 0, itemIdCounter = 0 \<rparr>"

subsection \<open>The builder\<close>

text \<open>\<open>sectionIdCounter++; currentSection = {...}; currentSubSection = null;
  result.sections.push(currentSection)\<close>; the section gets the new counter as its id.\<close>

definition ph_openSection :: "ph_state \<Rightarrow> (nat \<Rightarrow> ph_section) \<Rightarrow> ph_state" where
  "ph_openSection st mk =
     st\<lparr> ph_sections := ph_sections st @ [mk (sectionIdCounter st + 1)],
         ph_currentSection := Some (length (ph_sections st)),
         ph_currentSubSection := None,
         sectionIdCounter := sectionIdCounter st + 1 \<rparr>"

definition headerSection :: "jsval \<Rightarrow> string option \<Rightarrow> string option \<Rightarrow> jsval \<Rightarrow> nat \<Rightarrow> ph_section" where
  "headerSection sno desc unit rate n =
     \<lparr> ph_id = n,
       ph_item_no = sno,
       ph_item_key = headerKey sno,
       ph_category = or_general (obj_get SECTION_CATEGORIES (js_string sno))
                                (obj_get SECTION_CATEGORIES (headerKey sno)),
       ph_title = desc,
       ph_unit = (if truthy_s unit then unit else None),
       ph_rate = rate,
       ph_sub_sections = [],
       ph_items = [],
       ph_notes = [] \<rparr>"

definition compoundSection :: "jsval \<Rightarrow> string option \<Rightarrow> string option \<Rightarrow> jsval \<Rightarrow> nat \<Rightarrow> ph_section" where
  "compoundSection sno desc unit rate n =
     \<lparr> ph_id = n,
       ph_item_no = sno,
       ph_item_key = toLowerCase (strip_ws_dots (js_string sno)),
       ph_category = or_general (obj_get SECTION_CATEGORIES (toLowerCase (strip_ws_dots (js_string sno)))) None,
       ph_title = desc,
       ph_unit = unit,
       ph_rate = rate,
       ph_sub_sections = [],
       ph_items = [],
       ph_notes = [] \<rparr>"

definition ph_pushSubSection :: "ph_state \<Rightarrow> (ph_section \<Rightarrow> ph_sub_section) \<Rightarrow> error + ph_state" where
  "ph_pushSubSection st mk =
     (case ph_currentSection st of
        None \<Rightarrow> Inl TypeError
      | Some i \<Rightarrow>
          if length (ph_sections st) \<le> i then Inl TypeError
          else
            let sec = ph_sections st ! i in
            Inr (st\<lparr> ph_sections := (ph_sections st)
                       [i := sec\<lparr> ph_sub_sections := ph_sub_sections sec @ [mk sec] \<rparr>],
                     ph_currentSubSection := Some (length (ph_sub_sections sec)) \<rparr>))"

text \<open>The row with a unit and a rate: a new item, into the open sub-section or else
  into the section. \<open>unit.trim()\<close> raises on a unit that is null.\<close>

definition ph_pushItem :: "ph_state \<Rightarrow> string option \<Rightarrow> string option \<Rightarrow> jsval \<Rightarrow> error + ph_state" where
  "ph_pushItem st desc unit rate =
     (case ph_currentSection st of
        None \<Rightarrow> Inl TypeError
      | Some i \<Rightarrow>
          if length (ph_sections st) \<le> i then Inl TypeError
          else
            (case unit of
               None \<Rightarrow> Inl TypeError
             | Some u \<Rightarrow>
                 let sec = ph_sections st ! i;
                     item = \<lparr> ph_item_id = itemIdCounter st + 1,
                              section_item_no = ph_item_no sec,
                              ph_dimension = (if truthy_s desc then Some (trim (strip_mm (the desc))) else None),
                              ph_item_unit = Some (trim u),
                              ph_item_rate = rate,
                              ph_item_rate_type = rateTypeOf rate \<rparr>
                 in
                 (case ph_currentSubSection st of
                    None \<Rightarrow>
                      Inr (st\<lparr> ph_sections := (ph_sections st)[i := sec\<lparr> ph_items := ph_items sec @ [item] \<rparr>],
                               itemIdCounter := itemIdCounter st + 1 \<rparr>)
                  | Some j \<Rightarrow>
                      if length (ph_sub_sections sec) \<le> j then Inl TypeError
                      else
                        let sub = ph_sub_sections sec ! j in
                        Inr (st\<lparr> ph_sections := (ph_sections st)
                                   [i := sec\<lparr> ph_sub_sections := (ph_sub_sections sec)
                                      [j := sub\<lparr> ph_sub_items := ph_sub_items sub @ [item] \<rparr>] \<rparr>],
                                 itemIdCounter := itemIdCounter st + 1 \<rparr>))))"

text \<open>The row with a rate and no unit: the last item of the section itself takes the
  rate when its own is falsy; otherwise the section gets a new item.\<close>

definition ph_rateOnly :: "ph_state \<Rightarrow> string option \<Rightarrow> jsval \<Rightarrow> error + ph_state" where
  "ph_rateOnly st desc rate =
     (case ph_currentSection st of
        None \<Rightarrow> Inl TypeError
      | Some i \<Rightarrow>
          if length (ph_sections st) \<le> i then Inl TypeError
          else
            let sec = ph_sections st ! i; n = length (ph_items sec) in
            if 0 < n \<and> \<not> truthy (ph_item_rate (ph_items sec ! (n - 1))) then
              Inr (st\<lparr> ph_sections := (ph_sections st)
                         [i := sec\<lparr> ph_items := (ph_items sec)
                            [n - 1 := (ph_items sec ! (n - 1))\<lparr> ph_item_rate := rate \<rparr>] \<rparr>] \<rparr>)
            else
              Inr (st\<lparr> ph_sections := (ph_sections st)
                         [i := sec\<lparr> ph_items := ph_items sec @
                            [\<lparr> ph_item_id = itemIdCounter st + 1,
                               section_item_no = ph_item_no sec,
                               ph_dimension = desc,
                               ph_item_unit = None,
                               ph_item_rate = rate,
                               ph_item_rate_type = rateTypeOf rate \<rparr>] \<rparr>],
                       itemIdCounter := itemIdCounter st + 1 \<rparr>))"

text \<open>\<open>/DIAMETER OF PIPE/i\<close>, \<open>/DIA (in|of) (mm|pipe)/i\<close>, \<open>/G\.I\. PIPES/i\<close>, \<open>/PVC\/HDPE pipes/i\<close>\<close>

definition isContextRow :: "string \<Rightarrow> bool" where
  "isContextRow d =
     (re_search (LitI ''DIAMETER OF PIPE'') d \<or>
      re_search (Seq (LitI ''DIA '') (Seq (Alt (LitI ''in'') (LitI ''of''))
                   (Seq (LitI '' '') (Alt (LitI ''mm'') (LitI ''pipe''))))) d)"

definition isPipeHeader :: "string \<Rightarrow> bool" where
  "isPipeHeader d = (re_search (LitI ''G.I. PIPES'') d \<or> re_search (LitI ''PVC/HDPE pipes'') d)"

definition ph_autoId :: "ph_section \<Rightarrow> string" where
  "ph_autoId sec = ''auto_'' @ num_to_string (Fin (of_nat (length (ph_sub_sections sec) + 1)))"

text \<open>
  One turn of the loop of \<open>parsePublicHealthXLSX\<close>, written like the importer's:
  \<open>ph_classify\<close> holds the tests in their order, \<open>ph_step\<close> the bodies. A row shorter than
  five cells leaves the missing ones undefined, which every test treats as null.
  \<open>sno.trim()\<close> raises on an item number that is not a string. The last \<open>if\<close> of the loop
  holds two more: a context row and a pipe header.
\<close>

datatype ph_role =
    PBlank
  | PNote
  | PIndented
  | PSectionHeader
  | PSubHeader
  | PCompound
  | PItem
  | PRateOnly
  | PContext
  | PPipeHeader
  | PIgnored

definition ph_classify :: "ph_state \<Rightarrow> jsval list \<Rightarrow> ph_role" where
  "ph_classify st r =
     (let sno = trimSno (cell r 1);
          desc = cleanStr (cell r 2);
          unit = cleanStr (cell r 3);
          rate = ph_parseRate (cell r 4)
      in
        if \<not> truthy sno \<and> \<not> truthy_s desc \<and> \<not> truthy_s unit \<and> rate = JNull then PBlank
        else if \<not> truthy sno \<and> unit = None \<and> rate = JNull \<and> isNoteRow desc then PNote
        else if \<not> truthy sno \<and> unit = None \<and> rate = JNull \<and> truthy_s desc \<and> startsWith (the desc) '' ''
          then PIndented
        else if ph_isSectionHeader sno desc unit rate then PSectionHeader
        else if isSubHeader sno desc unit rate \<and> ph_currentSection st \<noteq> None then PSubHeader
        else if isFlatCompound sno then PCompound
        else if ph_currentSection st \<noteq> None \<and> truthy_s unit \<and> rate \<noteq> JNull then PItem
        else if ph_currentSection st \<noteq> None \<and> rate \<noteq> JNull \<and> \<not> truthy_s unit then PRateOnly
        else if ph_currentSection st \<noteq> None \<and> truthy_s desc \<and> \<not> truthy sno then
          (if isContextRow (the desc) then PContext
           else if isPipeHeader (the desc) then PPipeHeader
           else PIgnored)
        else PIgnored)"

definition ph_step :: "ph_state \<Rightarrow> jsval list \<Rightarrow> error + ph_state" where
  "ph_step st r =
     (let sno = trimSno (cell r 1);
          desc = cleanStr (cell r 2);
          unit = cleanStr (cell r 3);
          rate = ph_parseRate (cell r 4)
      in
        case ph_classify st r of
          PBlank \<Rightarrow> Inr st
        | PNote \<Rightarrow> Inr st
        | PIndented \<Rightarrow> Inr st
        | PSectionHeader \<Rightarrow> Inr (ph_openSection st (headerSection sno desc unit rate))
        | PSubHeader \<Rightarrow>
            (case sno of
               JStr t \<Rightarrow> ph_pushSubSection st (\<lambda>sec. \<lparr> ph_sub_id = trim t, ph_description = desc, ph_sub_items = [] \<rparr>)
             | _ \<Rightarrow> Inl TypeError)
        | PCompound \<Rightarrow> Inr (ph_openSection st (compoundSection sno desc unit rate))
        | PItem \<Rightarrow> ph_pushItem st desc unit rate
        | PRateOnly \<Rightarrow> ph_rateOnly st desc rate
        | PContext \<Rightarrow> Inr st
        | PPipeHeader \<Rightarrow>
            ph_pushSubSection st (\<lambda>sec. \<lparr> ph_sub_id = ph_autoId sec, ph_description = desc, ph_sub_items = [] \<rparr>)
        | PIgnored \<Rightarrow> Inr st)"

fun ph_run :: "ph_state \<Rightarrow> jsval list list \<Rightarrow> error + ph_state" where
  "ph_run st [] = Inr st"
| "ph_run st (r # rs) = (case ph_step st r of Inl e \<Rightarrow> Inl e | Inr st' \<Rightarrow> ph_run st' rs)"

text \<open>\<open>filePath.split('/').pop()\<close>: what follows the last slash.\<close>

definition basename :: "string \<Rightarrow> string" where
  "basename p = rev (takeWhile (\<lambda>c. c \<noteq> CHR ''/'') (rev p))"

record ph_result =
  res_title :: string
  res_year :: string
  source_file :: string
  parsed_at :: string
  res_sections :: "ph_section list"

text \<open>
  \<open>parsePublicHealthXLSX\<close>, from the rows of the sheet on. What it takes from outside
  is explicit: the path, the clock (\<open>new Date().toISOString()\<close>) and the rows.
\<close>

definition parsePublicHealthXLSX :: "string \<Rightarrow> string \<Rightarrow> jsval list list \<Rightarrow> error + ph_result" where
  "parsePublicHealthXLSX filePath now rows =
     (case ph_run ph_init (drop 2 rows) of
        Inl e \<Rightarrow> Inl e
      | Inr st \<Rightarrow>
          Inr \<lparr> res_title = ''Public Health Items - Schedule of Standard Rates'',
                res_year = ''2005-06'',
                source_file = basename filePath,
                parsed_at = now,
                res_sections = ph_sections st \<rparr>)"

definition ph_wf :: "ph_state \<Rightarrow> bool" where
  "ph_wf st =
     (case ph_currentSection st of
        None \<Rightarrow> ph_currentSubSection st = None
      | Some i \<Rightarrow>
          i < length (ph_sections st) \<and>
          (case ph_currentSubSection st of
             None \<Rightarrow> True
           | Some j \<Rightarrow> j < length (ph_sub_sections (ph_sections st ! i))))"


section \<open>The labour rate seeder (src/seed.js)\<close>

record labour_record =
  year :: string
  lr_category :: "string option"
  subCategory :: "string option"
  lr_description :: string
  lr_unit :: string
  lr_rate :: jsval

record seed_state =
  seed_currentSection :: "string option"
  seed_currentSubSection :: "string option"
  finalData :: "labour_record list"

definition seed_init :: seed_state where
  "seed_init = \<lparr> seed_currentSection = None, seed_currentSubSection = None, finalData = [] \<rparr>"

text \<open>\<open>row[k] ? String(row[k]).trim() : ""\<close>\<close>

definition cellText :: "jsval list \<Rightarrow> nat \<Rightarrow> string" where
  "cellText row k = (if truthy (cell row k) then trim (js_string (cell row k)) else [])"

text \<open>One turn of the loop of \<open>importExcel\<close>.\<close>

definition seed_step :: "seed_state \<Rightarrow> jsval list \<Rightarrow> seed_state" where
  "seed_step st row =
     (let description = cellText row 2;
          unit = cellText row 3;
          rate = cell row 4;
          lowerDesc = toLowerCase description
      in
        if description = [] then st
        else if str_includes lowerDesc ''skilled workmen'' then
          st\<lparr> seed_currentSection := Some ''Skilled'', seed_currentSubSection := None \<rparr>
        else if str_includes lowerDesc ''semi-skilled'' then
          st\<lparr> seed_currentSection := Some ''Semi-Skilled'', seed_currentSubSection := None \<rparr>
        else if str_includes lowerDesc ''unskilled'' then
          st\<lparr> seed_currentSection := Some ''Unskilled'', seed_currentSubSection := None \<rparr>
        else if str_includes lowerDesc ''other conveyance'' then
          st\<lparr> seed_currentSection := Some ''Conveyance'', seed_currentSubSection := None \<rparr>
        else if str_includes lowerDesc ''first class'' then
          st\<lparr> seed_currentSubSection := Some ''First Class'' \<rparr>
        else if str_includes lowerDesc ''second class'' then
          st\<lparr> seed_currentSubSection := Some ''Second Class'' \<rparr>
        else if str_includes lowerDesc ''operator'' then
          st\<lparr> seed_currentSubSection := Some ''Operator'' \<rparr>
        else if \<not> truthy_s (seed_currentSection st) then st
        else if rate = JNull then st
        else if \<not> isNumber rate then st
        else
          st\<lparr> finalData := finalData st @
               [\<lparr> year = ''2005-06'',
                  lr_category = seed_currentSection st,
                  subCategory = (if truthy_s (seed_currentSubSection st) then seed_currentSubSection st else None),
                  lr_description = description,
                  lr_unit = unit,
                  lr_rate = rate \<rparr>] \<rparr>)"

definition importExcel :: "jsval list list \<Rightarrow> labour_record list" where
  "importExcel rows = finalData (foldl seed_step seed_init rows)"

text \<open>The constraints of \<open>labourRateSchema\<close> on year, category, description and rate:
  required strings are not empty, the category is one of the enum, the rate is a number.\<close>

definition category_enum :: "string list" where
  "category_enum = [''Skilled'', ''Semi-Skilled'', ''Unskilled'', ''Conveyance'']"

definition schema_ok :: "labour_record \<Rightarrow> bool" where
  "schema_ok rec =
     (year rec \<noteq> [] \<and>
      (case lr_category rec of None \<Rightarrow> False | Some c \<Rightarrow> c \<in> set category_enum) \<and>
      lr_description rec \<noteq> [] \<and>
      isNumber (lr_rate rec))"


section \<open>Properties of the labour rate seeder\<close>

definition record_ok :: "labour_record \<Rightarrow> bool" where
  "record_ok rec =
     (year rec = ''2005-06'' \<and> (\<exists>c. lr_category rec = Some c \<and> c \<in> set category_enum) \<and>
      lr_description rec \<noteq> [] \<and> isNumber (lr_rate rec))"

text \<open>The loop invariant: the current section is unset or one of the four categories, and
  every record appended so far is in order.\<close>

definition seed_inv :: "seed_state \<Rightarrow> bool" where
  "seed_inv st =
     ((case seed_currentSection st of None \<Rightarrow> True | Some c \<Rightarrow> c \<in> set category_enum) \<and>
      list_all record_ok (finalData st))"

lemma seed_inv_init: "seed_inv seed_init"
  by (simp add: seed_inv_def seed_init_def)

lemma seed_inv_step: "seed_inv st \<Longrightarrow> seed_inv (seed_step st row)"
  unfolding seed_inv_def seed_step_def Let_def
  by (cases "seed_currentSection st") (auto simp: category_enum_def record_ok_def)

lemma seed_inv_foldl: "seed_inv st \<Longrightarrow> seed_inv (foldl seed_step st rows)"
  by (induction rows arbitrary: st) (simp_all add: seed_inv_step)

lemma record_ok_schema: "record_ok rec \<Longrightarrow> schema_ok rec"
  by (auto simp: record_ok_def schema_ok_def)

lemma seed_step_skips:
  "\<not> isNumber (cell row 4) \<or> seed_currentSection st = None \<Longrightarrow>
   finalData (seed_step st row) = finalData st"
  unfolding seed_step_def Let_def by (auto simp: isNumber_def)

text \<open>
  C10. Every record that \<open>importExcel\<close> appends to its output has the year \<open>2005-06\<close>, a
  category among Skilled, Semi-Skilled, Unskilled and Conveyance, a description that
  is not empty and a rate that is a number, so it meets the required and enum
  constraints of the schema on those fields. A row whose rate is missing or not a
  number, and a row met before any section marker, appends nothing.
\<close>

theorem importExcel_records:
  "(\<forall>rec \<in> set (importExcel rows).
      year rec = ''2005-06'' \<and>
      (\<exists>c. lr_category rec = Some c \<and>
           c \<in> set [''Skilled'', ''Semi-Skilled'', ''Unskilled'', ''Conveyance'']) \<and>
      lr_description rec \<noteq> [] \<and> isNumber (lr_rate rec) \<and> schema_ok rec) \<and>
   (\<forall>st row. \<not> isNumber (cell row 4) \<or> seed_currentSection st = None \<longrightarrow>
      finalData (seed_step st row) = finalData st)"
proof -
  have "seed_inv (foldl seed_step seed_init rows)"
    by (rule seed_inv_foldl [OF seed_inv_init])
  then have "list_all record_ok (importExcel rows)"
    by (simp add: seed_inv_def importExcel_def)
  then have "\<forall>rec \<in> set (importExcel rows). record_ok rec"
    by (simp add: list_all_iff)
  then show ?thesis
    using record_ok_schema seed_step_skips
    by (auto simp: record_ok_def category_enum_def)
qed

lemma importExcel_example:
  "importExcel
     [[JNull, JNull, JStr ''Mason'', JStr ''day'', JNum (Fin 100)],
      [JNull, JNull, JStr ''(A) Skilled Workmen''],
      [JNull, JNull, JStr ''First class''],
      [JNull, JNull, JStr ''Mason'', JStr ''day'', JNum (Fin 250)],
      [JNull, JNull, JStr ''Carpenter'', JStr ''day'', JStr ''250'']] =
   [\<lparr> year = ''2005-06'', lr_category = Some ''Skilled'', subCategory = Some ''First Class'',
      lr_description = ''Mason'', lr_unit = ''day'', lr_rate = JNum (Fin 250) \<rparr>]"
  by code_simp

theorem importExcel_records_witness:
  "importExcel
     [[JNull, JNull, JStr ''Mason'', JStr ''day'', JNum (Fin 100)],
      [JNull, JNull, JStr ''(A) Skilled Workmen''],
      [JNull, JNull, JStr ''First class''],
      [JNull, JNull, JStr ''Mason'', JStr ''day'', JNum (Fin 250)],
      [JNull, JNull, JStr ''Carpenter'', JStr ''day'', JStr ''250'']] =
   [\<lparr> year = ''2005-06'', lr_category = Some ''Skilled'', subCategory = Some ''First Class'',
      lr_description = ''Mason'', lr_unit = ''day'', lr_rate = JNum (Fin 250) \<rparr>] \<and>
   schema_ok \<lparr> year = ''2005-06'', lr_category = Some ''Skilled'', subCategory = Some ''First Class'',
      lr_description = ''Mason'', lr_unit = ''day'', lr_rate = JNum (Fin 250) \<rparr> \<and>
   finalData (seed_step seed_init [JNull, JNull, JStr ''Mason'', JStr ''day'', JNum (Fin 100)]) =
     finalData seed_init \<and>
   finalData (seed_step \<lparr> seed_currentSection = Some ''Skilled'', seed_currentSubSection = None,
                          finalData = [] \<rparr>
                        [JNull, JNull, JStr ''Carpenter'', JStr ''day'', JStr ''250'']) = []"
  using importExcel_records
    [of "[[JNull, JNull, JStr ''Mason'', JStr ''day'', JNum (Fin 100)],
          [JNull, JNull, JStr ''(A) Skilled Workmen''],
          [JNull, JNull, JStr ''First class''],
          [JNull, JNull, JStr ''Mason'', JStr ''day'', JNum (Fin 250)],
          [JNull, JNull, JStr ''Carpenter'', JStr ''day'', JStr ''250'']]"]
  unfolding importExcel_example
  by (simp add: seed_init_def cell_def isNumber_def)


section \<open>Properties of the cell normalisers\<close>

lemmas parse_defs =
  parseFloat_def is_space_def is_digit_def startsWith_def nat_of_digits_def exponent_of_def
  pow10_def to_double_def trim_def isNaN_def

lemma to_double_not_NaN: "to_double v \<noteq> NaN"
  by (simp add: to_double_def)

text \<open>A string that starts with a digit reads as a number.\<close>

lemma parseFloat_digit:
  assumes "s \<noteq> []" and "is_digit (hd s)"
  shows "parseFloat s \<noteq> NaN"
proof -
  obtain c cs where s: "s = c # cs" using assms(1) by (cases s) auto
  have d: "is_digit c" using assms(2) s by simp
  then have ns: "\<not> is_space c" and nm: "c \<noteq> CHR ''-''" and np: "c \<noteq> CHR ''+''"
    and ni: "c \<noteq> CHR ''I''"
    by (auto simp: is_digit_def is_space_def)
  show ?thesis
    unfolding parseFloat_def Let_def s
    using d ns nm np ni by (simp add: startsWith_def to_double_not_NaN)
qed

text \<open>
  C4, as the claim has it, fails on \<open>parseRate\<close> of src/publichealth.js: the lone dash is
  a trimmed string that is not empty and does not read as a number, and it is turned
  into null, not kept.
\<close>

theorem parseRate_dash_counterexample:
  "trim ''-'' = ''-'' \<and> parseFloat (trim ''-'') = NaN \<and> ph_parseRate (JStr ''-'') = JNull \<and>
   ph_parseRate (JStr ''-'') \<noteq> JStr (trim ''-'')"
  by (simp add: ph_parseRate_def parse_defs)

text \<open>
  C4, amended. Both \<open>parseRate\<close>s return a number as it is and null for null and for a
  string that is empty once trimmed. A string whose trimmed form starts with a digit
  gives the number that \<open>parseFloat\<close> reads from its front. A trimmed string that is not
  empty and does not read as a number is returned as it is by the importer's
  \<open>parseRate\<close>, and by the converter's too unless it is the lone dash, which gives
  null; a rate item built from such a rate keeps the string and has the rate type
  formula.
\<close>

theorem parseRate_cases:
  "parseRate (JNum x) = JNum x \<and> ph_parseRate (JNum x) = JNum x \<and>
   parseRate JNull = JNull \<and> ph_parseRate JNull = JNull \<and>
   (trim s = [] \<longrightarrow> parseRate (JStr s) = JNull \<and> ph_parseRate (JStr s) = JNull) \<and>
   (trim s \<noteq> [] \<and> is_digit (hd (trim s)) \<longrightarrow>
      parseFloat (trim s) \<noteq> NaN \<and>
      parseRate (JStr s) = JNum (parseFloat (trim s)) \<and>
      ph_parseRate (JStr s) = JNum (parseFloat (trim s))) \<and>
   (trim s \<noteq> [] \<and> parseFloat (trim s) = NaN \<longrightarrow>
      parseRate (JStr s) = JStr (trim s) \<and>
      ph_parseRate (JStr s) = (if trim s = ''-'' then JNull else JStr (trim s)) \<and>
      item_rate (buildRateItem d u (parseRate (JStr s))) = JStr (trim s) \<and>
      item_rate_type (buildRateItem d u (parseRate (JStr s))) = Formula \<and>
      (trim s \<noteq> ''-'' \<longrightarrow> rateTypeOf (ph_parseRate (JStr s)) = Formula))"
proof -
  have dash: "\<not> is_digit (hd ''-'')" by (simp add: is_digit_def)
  have "trim s \<noteq> [] \<and> is_digit (hd (trim s)) \<longrightarrow> trim s \<noteq> ''-''"
    using dash by auto
  then show ?thesis
    using parseFloat_digit [of "trim s"]
    by (auto simp: parseRate_def ph_parseRate_def isNaN_def Let_def buildRateItem_def
        rateTypeOf_def isNumber_def)
qed

theorem parseRate_cases_witness:
  "parseRate (JNum (Fin (491 / 2))) = JNum (Fin (491 / 2)) \<and>
   trim ''   '' = [] \<and> parseRate (JStr ''   '') = JNull \<and> ph_parseRate (JStr ''   '') = JNull \<and>
   trim ''100 approx'' = ''100 approx'' \<and> is_digit (hd ''100 approx'') \<and>
   parseFloat ''100 approx'' = Fin 100 \<and>
   parseRate (JStr ''100 approx'') = JNum (Fin 100) \<and>
   ph_parseRate (JStr ''100 approx'') = JNum (Fin 100) \<and>
   trim ''As per Common SSR'' = ''As per Common SSR'' \<and>
   parseFloat ''As per Common SSR'' = NaN \<and>
   parseRate (JStr ''As per Common SSR'') = JStr ''As per Common SSR'' \<and>
   ph_parseRate (JStr ''As per Common SSR'') = JStr ''As per Common SSR'' \<and>
   item_rate (buildRateItem (Some ''80'') (Some ''rm'') (parseRate (JStr ''As per Common SSR''))) =
     JStr ''As per Common SSR'' \<and>
   item_rate_type (buildRateItem (Some ''80'') (Some ''rm'') (parseRate (JStr ''As per Common SSR''))) =
     Formula \<and>
   rateTypeOf (ph_parseRate (JStr ''As per Common SSR'')) = Formula"
proof -
  have t1: "trim ''   '' = []" and t2: "trim ''100 approx'' = ''100 approx''"
    and t3: "trim ''As per Common SSR'' = ''As per Common SSR''"
    by (simp_all add: trim_def is_space_def)
  have d: "is_digit (hd ''100 approx'')" by (simp add: is_digit_def)
  have p2: "parseFloat ''100 approx'' = Fin 100" by (simp add: parse_defs)
  have p3: "parseFloat ''As per Common SSR'' = NaN" by (simp add: parse_defs)
  show ?thesis
    using parseRate_cases [of "Fin (491 / 2)" "''   ''"]
      parseRate_cases [of "Fin 0" "''100 approx''"]
      parseRate_cases [of "Fin 0" "''As per Common SSR''" "Some ''80''" "Some ''rm''"]
    unfolding t1 t2 t3 p2 p3 using d
    by (simp add: buildRateItem_def rateTypeOf_def isNumber_def)
qed


section \<open>The builders never raise\<close>

text \<open>The cursors stay inside the lists, so no turn of either loop reads a property of
  null or undefined.\<close>

lemma wf_init: "wf init" by (simp add: wf_def init_def)

lemma openSection_wf: "wf (openSection st sec)"
  by (simp add: wf_def openSection_def)

lemma pushSubSection_wf:
  assumes "wf st" and "currentSection st \<noteq> None"
  shows "\<exists>st'. pushSubSection st mk = Inr st' \<and> wf st'"
  using assms by (auto simp: wf_def pushSubSection_def Let_def split: option.splits)

lemma updateTarget_wf:
  assumes "wf st" and "currentSection st \<noteq> None"
  shows "\<exists>st'. updateTarget st f = Inr st' \<and> wf st'"
  using assms by (auto simp: wf_def updateTarget_def Let_def split: option.splits)

lemma classify_open:
  "classify st r \<in> {SubSectionHeader, AutoSubSection, RateItemRow, RateOnlyRow} \<Longrightarrow> currentSection st \<noteq> None"
  by (auto simp: classify_def Let_def split: if_splits)

lemma step_wf:
  assumes "wf st"
  shows "\<exists>st'. step st r = Inr st' \<and> wf st'"
proof (cases "classify st r")
  case SubSectionHeader
  then show ?thesis using classify_open [of st r] pushSubSection_wf [OF assms]
    by (simp add: step_def Let_def)
next
  case AutoSubSection
  then show ?thesis using classify_open [of st r] pushSubSection_wf [OF assms]
    by (simp add: step_def Let_def)
next
  case RateItemRow
  then show ?thesis using classify_open [of st r] updateTarget_wf [OF assms]
    by (simp add: step_def Let_def)
next
  case RateOnlyRow
  then show ?thesis using classify_open [of st r] updateTarget_wf [OF assms]
    by (simp add: step_def Let_def)
qed (simp_all add: step_def Let_def assms openSection_wf)

lemma run_wf: "wf st \<Longrightarrow> \<exists>st'. run st rows = Inr st' \<and> wf st'"
proof (induction rows arbitrary: st)
  case Nil then show ?case by simp
next
  case (Cons r rows)
  from step_wf [OF Cons.prems, of r] obtain st1 where "step st r = Inr st1" "wf st1" by blast
  then show ?case using Cons.IH [of st1] by simp
qed

lemma ph_wf_init: "ph_wf ph_init" by (simp add: ph_wf_def ph_init_def)

lemma ph_openSection_wf: "ph_wf (ph_openSection st mk)"
  by (simp add: ph_wf_def ph_openSection_def)

lemma ph_pushSubSection_wf:
  assumes "ph_wf st" and "ph_currentSection st \<noteq> None"
  shows "\<exists>st'. ph_pushSubSection st mk = Inr st' \<and> ph_wf st'"
  using assms by (auto simp: ph_wf_def ph_pushSubSection_def Let_def split: option.splits)

lemma ph_pushItem_wf:
  assumes "ph_wf st" and "ph_currentSection st \<noteq> None" and "truthy_s unit"
  shows "\<exists>st'. ph_pushItem st desc unit rate = Inr st' \<and> ph_wf st'"
  using assms by (cases unit) (auto simp: ph_wf_def ph_pushItem_def Let_def split: option.splits)

lemma ph_rateOnly_wf:
  assumes "ph_wf st" and "ph_currentSection st \<noteq> None"
  shows "\<exists>st'. ph_rateOnly st desc rate = Inr st' \<and> ph_wf st'"
  using assms by (auto simp: ph_wf_def ph_rateOnly_def Let_def split: option.splits)

lemma ph_classify_open:
  "ph_classify st r \<in> {PSubHeader, PItem, PRateOnly, PPipeHeader} \<Longrightarrow> ph_currentSection st \<noteq> None"
  by (auto simp: ph_classify_def Let_def split: if_splits)

lemma ph_classify_PItem: "ph_classify st r = PItem \<Longrightarrow> truthy_s (cleanStr (cell r 3))"
  by (auto simp: ph_classify_def Let_def split: if_splits)

lemma ph_classify_PSubHeader: "ph_classify st r = PSubHeader \<Longrightarrow> isString (trimSno (cell r 1))"
  by (auto simp: ph_classify_def Let_def isSubHeader_def split: if_splits)

lemma ph_step_wf:
  assumes "ph_wf st"
  shows "\<exists>st'. ph_step st r = Inr st' \<and> ph_wf st'"
proof (cases "ph_classify st r")
  case PSubHeader
  then obtain t where "trimSno (cell r 1) = JStr t"
    using ph_classify_PSubHeader [of st r] by (auto simp: isString_def split: jsval.splits)
  then show ?thesis using PSubHeader ph_classify_open [of st r] ph_pushSubSection_wf [OF assms]
    by (simp add: ph_step_def Let_def)
next
  case PPipeHeader
  then show ?thesis using ph_classify_open [of st r] ph_pushSubSection_wf [OF assms]
    by (simp add: ph_step_def Let_def)
next
  case PItem
  then show ?thesis using ph_classify_open [of st r] ph_classify_PItem [of st r] ph_pushItem_wf [OF assms]
    by (simp add: ph_step_def Let_def)
next
  case PRateOnly
  then show ?thesis using ph_classify_open [of st r] ph_rateOnly_wf [OF assms]
    by (simp add: ph_step_def Let_def)
qed (simp_all add: ph_step_def Let_def assms ph_openSection_wf)

lemma ph_run_wf: "ph_wf st \<Longrightarrow> \<exists>st'. ph_run st rows = Inr st' \<and> ph_wf st'"
proof (induction rows arbitrary: st)
  case Nil then show ?case by simp
next
  case (Cons r rows)
  from ph_step_wf [OF Cons.prems, of r] obtain st1 where "ph_step st r = Inr st1" "ph_wf st1" by blast
  then show ?case using Cons.IH [of st1] by simp
qed



lemma step_ignored: "classify st r = Blank \<or> classify st r = Ignored \<Longrightarrow> step st r = Inr st"
  by (auto simp: step_def Let_def)

lemma ph_step_ignored:
  "ph_classify st r \<in> {PBlank, PNote, PIndented, PContext, PIgnored} \<Longrightarrow> ph_step st r = Inr st"
  by (auto simp: ph_step_def Let_def)

text \<open>
  C7. Handling a row is total. After any rows, any further row (a list of cells that are
  absent, strings or numbers, in any combination) is classified and handled without a
  raise, in the importer and in the converter, so both parsers return for every
  sheet. A row that no rule matches (and a blank, note, indented or context row)
  leaves the builder state as it is: \<open>currentSection\<close>, \<open>currentSubSection\<close> and
  the list of sections.
\<close>

theorem rows_never_raise:
  "(\<exists>st. run init rows = Inr st \<and> (\<exists>st'. step st r = Inr st')) \<and>
   (\<exists>st. ph_run ph_init rows = Inr st \<and> (\<exists>st'. ph_step st r = Inr st')) \<and>
   (\<exists>secs. parseExcel rows = Inr secs) \<and>
   (\<exists>res. parsePublicHealthXLSX filePath now rows = Inr res) \<and>
   (classify cur r = Blank \<or> classify cur r = Ignored \<longrightarrow> step cur r = Inr cur) \<and>
   (ph_classify pcur r \<in> {PBlank, PNote, PIndented, PContext, PIgnored} \<longrightarrow> ph_step pcur r = Inr pcur)"
proof -
  obtain st where st: "run init rows = Inr st" "wf st"
    using run_wf [OF wf_init] by blast
  obtain pst where pst: "ph_run ph_init rows = Inr pst" "ph_wf pst"
    using ph_run_wf [OF ph_wf_init] by blast
  obtain st2 where st2: "run init (drop 2 rows) = Inr st2"
    using run_wf [OF wf_init] by blast
  obtain pst2 where pst2: "ph_run ph_init (drop 2 rows) = Inr pst2"
    using ph_run_wf [OF ph_wf_init] by blast
  show ?thesis
    using st pst step_wf [OF st(2), of r] ph_step_wf [OF pst(2), of r] st2 pst2
      step_ignored [of cur r] ph_step_ignored [of pcur r]
    by (simp add: parseExcel_def parsePublicHealthXLSX_def) blast
qed


theorem rows_never_raise_witness:
  "run init [[JNull, JNum (Fin 1), JStr ''RATES OF LABOUR'']] =
     Inr \<lparr> sections =
             [\<lparr> item_no = JNum (Fin 1), item_key = Some ''1'', category = PStr ''Labour Rates'',
                title = Some ''RATES OF LABOUR'', sec_unit = None, sec_rate = JNull,
                sec_rate_type = None, sub_sections = [], sec_items = [] \<rparr>],
           currentSection = Some 0, currentSubSection = None \<rparr> \<and>
   classify init [JNull, JNull, JStr ''free text'', JStr ''rm'', JNum (Fin 5)] = Ignored \<and>
   step init [JNull, JNull, JStr ''free text'', JStr ''rm'', JNum (Fin 5)] = Inr init \<and>
   ph_classify ph_init [JNull, JNull, JStr ''free text'', JStr ''rm'', JNum (Fin 5)] = PIgnored \<and>
   ph_step ph_init [JNull, JNull, JStr ''free text'', JStr ''rm'', JNum (Fin 5)] = Inr ph_init"
proof -
  have c: "classify init [JNull, JNull, JStr ''free text'', JStr ''rm'', JNum (Fin 5)] = Ignored"
    by code_simp
  have pc: "ph_classify ph_init [JNull, JNull, JStr ''free text'', JStr ''rm'', JNum (Fin 5)] = PIgnored"
    by code_simp
  have r: "run init [[JNull, JNum (Fin 1), JStr ''RATES OF LABOUR'']] =
     Inr \<lparr> sections =
             [\<lparr> item_no = JNum (Fin 1), item_key = Some ''1'', category = PStr ''Labour Rates'',
                title = Some ''RATES OF LABOUR'', sec_unit = None, sec_rate = JNull,
                sec_rate_type = None, sub_sections = [], sec_items = [] \<rparr>],
           currentSection = Some 0, currentSubSection = None \<rparr>"
    by code_simp
  show ?thesis
    using rows_never_raise [where rows = "[[JNull, JNum (Fin 1), JStr ''RATES OF LABOUR'']]"
        and r = "[JNull, JNull, JStr ''free text'', JStr ''rm'', JNum (Fin 5)]"
        and cur = init and pcur = ph_init]
    unfolding c pc r by simp
qed



section \<open>What the patterns match\<close>

text \<open>The language of a pattern, and the derivative test decides it.\<close>

fun lang :: "rexp \<Rightarrow> string set" where
  "lang Zero = {}"
| "lang One = {[]}"
| "lang (Atom P) = {[c] | c. P c}"
| "lang (Alt r s) = lang r \<union> lang s"
| "lang (Seq r s) = {u @ v | u v. u \<in> lang r \<and> v \<in> lang s}"
| "lang (Many P) = {w. list_all P w}"

lemma nullable_lang: "nullable r \<longleftrightarrow> [] \<in> lang r"
  by (induction r) auto

lemma deriv_lang: "w \<in> lang (deriv c r) \<longleftrightarrow> c # w \<in> lang r"
proof (induction r arbitrary: w)
  case (Seq r s)
  have "c # w \<in> lang (Seq r s) \<longleftrightarrow>
        ([] \<in> lang r \<and> c # w \<in> lang s) \<or> (\<exists>u v. w = u @ v \<and> c # u \<in> lang r \<and> v \<in> lang s)"
    by (auto simp: Cons_eq_append_conv)
  with Seq show ?case
    by (auto simp: nullable_lang)
qed auto

lemma matches_lang: "matches r w \<longleftrightarrow> w \<in> lang r"
  by (induction w arbitrary: r) (simp_all add: nullable_lang deriv_lang)




lemma lang_Seq_Atom: "lang (Seq (Atom P) r) = {c # t | c t. P c \<and> t \<in> lang r}"
proof (intro set_eqI iffI)
  fix x assume "x \<in> lang (Seq (Atom P) r)"
  then obtain c v where "x = [c] @ v" "P c" "v \<in> lang r" by auto
  then show "x \<in> {c # t | c t. P c \<and> t \<in> lang r}" by simp
next
  fix x assume "x \<in> {c # t | c t. P c \<and> t \<in> lang r}"
  then obtain c t where "x = c # t" "P c" "t \<in> lang r" by auto
  then have "x = [c] @ t \<and> [c] \<in> lang (Atom P) \<and> t \<in> lang r" by simp
  then show "x \<in> lang (Seq (Atom P) r)" unfolding lang.simps(5) by blast
qed

lemma lang_LitI_Cons: "lang (LitI (a # s)) = {c # t | c t. eq_ci a c \<and> t \<in> lang (LitI s)}"
  using lang_Seq_Atom [of "eq_ci a" "LitI s"] by (simp add: LitI_def)

lemma lang_LitI: "lang (LitI s) = {t. list_all2 eq_ci s t}"
proof (induction s)
  case Nil show ?case by (simp add: LitI_def)
next
  case (Cons a s)
  show ?case unfolding lang_LitI_Cons Cons by (auto simp: list_all2_Cons1)
qed

lemma re_prefix_lang: "re_prefix r s \<longleftrightarrow> (\<exists>u v. s = u @ v \<and> u \<in> lang r)"
  by (auto simp: re_prefix_def list_ex_iff matches_lang prefix_def)


lemma re_search_lang: "re_search r s \<longleftrightarrow> (\<exists>t u v. s = t @ u @ v \<and> u \<in> lang r)"
proof
  assume "re_search r s"
  then obtain w where "suffix w s" "re_prefix r w"
    by (auto simp: re_search_def list_ex_iff)
  then obtain t u v where "s = t @ w" "w = u @ v" "u \<in> lang r"
    by (auto simp: suffix_def re_prefix_lang)
  then show "\<exists>t u v. s = t @ u @ v \<and> u \<in> lang r" by blast
next
  assume "\<exists>t u v. s = t @ u @ v \<and> u \<in> lang r"
  then obtain t u v where s: "s = t @ u @ v" and u: "u \<in> lang r" by blast
  have "suffix (u @ v) s" using s by (simp add: suffix_def)
  moreover have "re_prefix r (u @ v)" using u by (auto simp: re_prefix_lang)
  ultimately show "re_search r s"
    by (auto simp: re_search_def list_ex_iff)
qed



lemma lang_Alts: "lang (Alts rs) = (\<Union>r \<in> set rs. lang r)"
  by (induction rs) (simp_all add: Alts_def)

lemma upper_to_lower: "\<forall>c \<in> set ''ABCDEFGHIJKLMNOPQRSTUVWXYZ''. ascii_lower c \<in> set ''abcdefghijklmnopqrstuvwxyz''"
  by code_simp

lemma lower_no_digit: "\<forall>c \<in> set ''abcdefghijklmnopqrstuvwxyz''. c \<notin> set ''0123456789''"
  by code_simp

lemma upper_no_digit: "\<forall>c \<in> set ''ABCDEFGHIJKLMNOPQRSTUVWXYZ''. c \<notin> set ''0123456789''"
  by code_simp

lemma ascii_lower_upper: "is_upper c \<Longrightarrow> is_lower (ascii_lower c)"
  unfolding is_upper_def is_lower_def by (rule bspec [OF upper_to_lower])

lemma is_lower_not_digit: "is_lower c \<Longrightarrow> \<not> is_digit c"
  unfolding is_lower_def is_digit_def using lower_no_digit by blast

lemma is_upper_not_digit: "is_upper c \<Longrightarrow> \<not> is_digit c"
  unfolding is_upper_def is_digit_def using upper_no_digit by blast

lemma eq_ci_digit:
  assumes "is_digit a" and "eq_ci a c"
  shows "c = a"
proof -
  have a: "ascii_lower a = a"
    using assms(1) is_upper_not_digit by (auto simp: ascii_lower_def)
  show ?thesis
  proof (cases "is_upper c")
    case True
    then have "is_lower (ascii_lower c)" by (rule ascii_lower_upper)
    then have "is_lower a" using assms(2) a by (simp add: eq_ci_def)
    then show ?thesis using assms(1) is_lower_not_digit by blast
  next
    case False
    then show ?thesis using assms(2) a by (simp add: eq_ci_def ascii_lower_def)
  qed
qed

lemma compound_re_digit:
  assumes "matches compound_re k"
  shows "k \<noteq> [] \<and> is_digit (hd k)"
proof -
  from assms obtain p where p: "p \<in> set [''8a'', ''8b'', ''9a'', ''9b'', ''11a'', ''11b'', ''18a'', ''18b'', ''41a'', ''41b'']"
    and m: "list_all2 eq_ci p k"
    by (auto simp: matches_lang compound_re_def lang_Alts lang_LitI)
  from p have "p \<noteq> [] \<and> is_digit (hd p)" by (auto simp: is_digit_def)
  with m show ?thesis
    by (cases p; cases k) (auto dest: eq_ci_digit)
qed

lemma ph_compound_re_digit:
  assumes "matches ph_compound_re k"
  shows "k \<noteq> [] \<and> is_digit (hd k)"
proof -
  from assms have "k \<in> lang ph_compound_re" by (simp add: matches_lang)
  then obtain c t where "k = c # t" "eq_ci CHR ''1'' c \<or> eq_ci CHR ''4'' c"
    unfolding ph_compound_re_def lang_Alts
    by (auto simp: lang_Seq_Atom LitI_def)
  then show ?thesis
    by (auto dest: eq_ci_digit [rotated] simp: is_digit_def)
qed

lemma header_re_digit:
  assumes "matches header_re s"
  shows "s \<noteq> [] \<and> is_digit (hd s)"
  using assms unfolding matches_lang header_re_def lang_Seq_Atom by auto

lemma digits_prefix_digit:
  assumes "re_prefix (Seq (Atom is_digit) (Many is_digit)) s"
  shows "s \<noteq> [] \<and> is_digit (hd s)"
  using assms unfolding re_prefix_lang lang_Seq_Atom by auto



section \<open>Item keys and categories\<close>

lemma digit_char_digit: "\<forall>d \<in> set [0..<10]. digit_char d \<in> set ''0123456789''"
  by code_simp

lemma digits_of_hd: "digits_of n \<noteq> [] \<and> is_digit (hd (digits_of n))"
proof (induction n rule: digits_of.induct)
  case (1 n)
  show ?case
  proof (cases "n < 10")
    case True
    then have "n \<in> set [0..<10]" by simp
    then have "digit_char n \<in> set ''0123456789''" by (rule bspec [OF digit_char_digit])
    then have "is_digit (digit_char n)" unfolding is_digit_def .
    then show ?thesis using True by (subst digits_of.simps, subst digits_of.simps) simp
  next
    case False
    then show ?thesis using 1 by (subst digits_of.simps, subst digits_of.simps) simp
  qed
qed

text \<open>An item key that starts with a digit or a minus sign.\<close>

definition key_start :: "string \<Rightarrow> bool" where
  "key_start s = (s \<noteq> [] \<and> hd s \<in> set ''0123456789-'')"

lemma is_digit_key_start: "s \<noteq> [] \<Longrightarrow> is_digit (hd s) \<Longrightarrow> key_start s"
  by (auto simp: key_start_def is_digit_def)

lemma key_chars_fixed:
  "\<forall>c \<in> set ''0123456789-''. lower_char c = c \<and> \<not> is_space c \<and> c \<noteq> CHR ''.''"
  by code_simp

lemma key_start_canonical:
  assumes "key_start s"
  shows "key_start (toLowerCase (strip_ws_dots s))"
proof -
  from assms obtain c cs where s: "s = c # cs" and c: "c \<in> set ''0123456789-''"
    by (cases s) (auto simp: key_start_def)
  from c key_chars_fixed have "lower_char c = c \<and> \<not> is_space c \<and> c \<noteq> CHR ''.''" by blast
  then show ?thesis using c
    unfolding s key_start_def toLowerCase_def strip_ws_dots_def by simp
qed

lemma proto_not_key_start: "\<forall>k \<in> set object_prototype_keys. \<not> key_start k"
  by code_simp

lemma key_start_not_proto: "key_start k \<Longrightarrow> k \<notin> set object_prototype_keys"
  using proto_not_key_start by blast


lemma num_to_string_shape:
  "num_to_string x \<in> {''NaN'', ''Infinity'', ''-Infinity''} \<or> key_start (num_to_string x)"
proof (cases x)
  case (Fin q)
  obtain a b where ab: "quotient_of \<bar>q\<bar> = (a, b)" by (cases "quotient_of \<bar>q\<bar>")
  show ?thesis
  proof (cases "q < 0")
    case True
    have "key_start (CHR ''-'' # t)" for t by (simp add: key_start_def)
    then show ?thesis using Fin ab True by (simp add: num_to_string_def Let_def)
  next
    case False
    have "key_start (digits_of (nat a div nat b) @ t)" for t
      using digits_of_hd [of "nat a div nat b"] by (simp add: is_digit_key_start)
    then show ?thesis using Fin ab False by (simp add: num_to_string_def Let_def)
  qed
qed (simp_all add: num_to_string_def)

lemma special_keys:
  "\<forall>k \<in> set [''NaN'', ''Infinity'', ''-Infinity''].
     k \<notin> set object_prototype_keys \<and> toLowerCase (strip_ws_dots k) \<notin> set object_prototype_keys \<and>
     \<not> matches compound_re (toLowerCase (strip_ws_dots k)) \<and>
     \<not> matches ph_compound_re (strip_ws_dots k)"
  by code_simp

lemma number_keys_not_proto:
  "num_to_string x \<notin> set object_prototype_keys \<and>
   toLowerCase (strip_ws_dots (num_to_string x)) \<notin> set object_prototype_keys"
proof (cases "key_start (num_to_string x)")
  case True
  then show ?thesis using key_start_canonical key_start_not_proto by blast
next
  case False
  then have "num_to_string x \<in> set [''NaN'', ''Infinity'', ''-Infinity'']"
    using num_to_string_shape [of x] by simp
  then show ?thesis using special_keys by blast
qed

lemma filter_dropWhile: "(\<And>x. Q x \<Longrightarrow> \<not> P x) \<Longrightarrow> filter P (dropWhile Q xs) = filter P xs"
  by (induction xs) auto

lemma strip_trim: "strip_ws_dots (trim s) = strip_ws_dots s"
proof -
  let ?P = "\<lambda>c. \<not> is_space c \<and> c \<noteq> CHR ''.''"
  have "filter ?P (trim s) = rev (filter ?P (dropWhile is_space (rev (dropWhile is_space s))))"
    by (simp add: trim_def rev_filter)
  also have "\<dots> = rev (filter ?P (rev (dropWhile is_space s)))"
    by (simp add: filter_dropWhile)
  also have "\<dots> = filter ?P (dropWhile is_space s)"
    by (simp add: rev_filter)
  also have "\<dots> = filter ?P s"
    by (simp add: filter_dropWhile)
  finally show ?thesis by (simp add: strip_ws_dots_def)
qed

lemma proto_trim: "\<forall>k \<in> set object_prototype_keys. trim k = k"
  by code_simp

lemma proto_not_compound:
  "\<forall>k \<in> set object_prototype_keys.
     \<not> matches compound_re (toLowerCase (strip_ws_dots k)) \<and> \<not> matches ph_compound_re (strip_ws_dots k)"
  by code_simp



text \<open>The canonical key in the words of the specification: absent for an absent item
  number; otherwise the item number as a string, without white space and dots, in
  lower case.\<close>

definition canonicalKey :: "jsval \<Rightarrow> string option" where
  "canonicalKey itemNo =
     (if itemNo = JNull then None
      else Some (map lower_char (filter (\<lambda>c. \<not> is_space c \<and> c \<noteq> CHR ''.'') (js_string itemNo))))"

text \<open>The category in the words of the specification: the canonical key first, then the
  raw item number, then \<open>General\<close>.\<close>

definition resolveCategory :: "(string \<times> string) list \<Rightarrow> string \<Rightarrow> string \<Rightarrow> string" where
  "resolveCategory tbl key raw =
     (case map_of tbl key of
        Some c \<Rightarrow> c
      | None \<Rightarrow> (case map_of tbl raw of Some c \<Rightarrow> c | None \<Rightarrow> ''General''))"

lemma canon_def: "canonicalKey v = (if v = JNull then None else Some (toLowerCase (strip_ws_dots (js_string v))))"
  by (simp add: canonicalKey_def toLowerCase_def strip_ws_dots_def)

lemma strip_two_pass: "strip_ws (strip_dot_ws_from b s) = strip_ws_dots s"
  by (induction s arbitrary: b) (auto simp: strip_ws_def strip_ws_dots_def)

lemma headerKey_canonical: "headerKey sno = toLowerCase (strip_ws_dots (js_string sno))"
  by (simp add: headerKey_def strip_two_pass)

lemma key_start_lower: "key_start t \<Longrightarrow> key_start (toLowerCase t)"
proof -
  assume "key_start t"
  then obtain c cs where t: "t = c # cs" and c: "c \<in> set ''0123456789-''"
    by (cases t) (auto simp: key_start_def)
  from c key_chars_fixed have "lower_char c = c" by blast
  then show ?thesis using c unfolding t key_start_def toLowerCase_def by simp
qed

lemma table_values:
  "list_all (\<lambda>(k, v). v \<noteq> [] \<and> toLowerCase (strip_ws_dots k) = k) CATEGORY_MAP"
  "list_all (\<lambda>(k, v). v \<noteq> [] \<and> toLowerCase (strip_ws_dots k) = k) SECTION_CATEGORIES"
  by code_simp+

definition table_ok :: "(string \<times> string) list \<Rightarrow> bool" where
  "table_ok tbl = list_all (\<lambda>(k, v). v \<noteq> [] \<and> toLowerCase (strip_ws_dots k) = k) tbl"

lemma table_ok_lookup:
  assumes "table_ok tbl" and "map_of tbl k = Some v"
  shows "v \<noteq> [] \<and> toLowerCase (strip_ws_dots k) = k"
proof -
  from assms(2) have "(k, v) \<in> set tbl" by (rule map_of_SomeD)
  with assms(1) show ?thesis by (auto simp: table_ok_def list_all_iff)
qed

lemma or_general_resolve:
  assumes "k \<notin> set object_prototype_keys" and "raw \<notin> set object_prototype_keys" and "table_ok tbl"
  shows "or_general (obj_get tbl k) (obj_get tbl raw) = PStr (resolveCategory tbl k raw) \<and>
         resolveCategory tbl k raw \<noteq> []"
  using assms table_ok_lookup [of tbl k] table_ok_lookup [of tbl raw]
  by (auto simp: or_general_def obj_get_def resolveCategory_def split: option.splits)

text \<open>The converter looks the raw item number up first; the result is the same.\<close>

lemma or_general_swapped:
  assumes "k \<notin> set object_prototype_keys" and "raw \<notin> set object_prototype_keys" and "table_ok tbl"
    and "k = toLowerCase (strip_ws_dots raw)"
  shows "or_general (obj_get tbl raw) (obj_get tbl k) = PStr (resolveCategory tbl k raw) \<and>
         resolveCategory tbl k raw \<noteq> []"
  using assms table_ok_lookup [of tbl k] table_ok_lookup [of tbl raw]
  by (auto simp: or_general_def obj_get_def resolveCategory_def split: option.splits)

text \<open>The converter's compound rows have no second lookup; it would find nothing.\<close>

lemma or_general_single:
  assumes "k \<notin> set object_prototype_keys" and "table_ok tbl"
    and "k = toLowerCase (strip_ws_dots raw)"
  shows "or_general (obj_get tbl k) None = PStr (resolveCategory tbl k raw) \<and>
         resolveCategory tbl k raw \<noteq> []"
  using assms table_ok_lookup [of tbl k] table_ok_lookup [of tbl raw]
  by (auto simp: or_general_def obj_get_def resolveCategory_def split: option.splits)



text \<open>The item number of a header or compound row, as a string and as a key, is not a
  member every object inherits.\<close>

lemma string_header_keys:
  assumes "key_start (trim s)"
  shows "s \<notin> set object_prototype_keys \<and>
         toLowerCase (strip_ws_dots s) \<notin> set object_prototype_keys"
proof -
  have "key_start (toLowerCase (strip_ws_dots (trim s)))"
    using assms by (rule key_start_canonical)
  then have k: "toLowerCase (strip_ws_dots s) \<notin> set object_prototype_keys"
    by (simp add: strip_trim key_start_not_proto)
  have "s \<notin> set object_prototype_keys"
  proof
    assume p: "s \<in> set object_prototype_keys"
    then have "trim s = s" using proto_trim by blast
    then show False using assms p proto_not_key_start by auto
  qed
  with k show ?thesis by simp
qed

lemma header_keys:
  assumes "isSectionHeader sno unit rate"
  shows "sno \<noteq> JNull \<and> js_string sno \<notin> set object_prototype_keys \<and>
         toLowerCase (strip_ws_dots (js_string sno)) \<notin> set object_prototype_keys"
proof (cases sno)
  case JNull
  then show ?thesis using assms by (auto simp: isSectionHeader_def split: if_splits)
next
  case (JNum x)
  then show ?thesis using number_keys_not_proto [of x] by simp
next
  case (JStr s)
  then have "matches header_re (trim s)"
    using assms by (auto simp: isSectionHeader_def isNumber_def split: if_splits)
  then have "key_start (trim s)"
    using header_re_digit is_digit_key_start by blast
  then show ?thesis using JStr string_header_keys by simp
qed

lemma compound_keys:
  assumes "isSimpleCompound sno"
  shows "sno \<noteq> JNull \<and> js_string sno \<notin> set object_prototype_keys \<and>
         toLowerCase (strip_ws_dots (js_string sno)) \<notin> set object_prototype_keys"
proof -
  from assms have t: "truthy sno" and m: "matches compound_re (toLowerCase (strip_ws_dots (js_string sno)))"
    by (auto simp: isSimpleCompound_def split: if_splits)
  from m have "key_start (toLowerCase (strip_ws_dots (js_string sno)))"
    using compound_re_digit is_digit_key_start by blast
  then have k: "toLowerCase (strip_ws_dots (js_string sno)) \<notin> set object_prototype_keys"
    by (rule key_start_not_proto)
  have "js_string sno \<notin> set object_prototype_keys"
    using m proto_not_compound by blast
  with t k show ?thesis by auto
qed

lemma ph_header_keys:
  assumes "ph_isSectionHeader sno desc unit rate"
  shows "sno \<noteq> JNull \<and> js_string sno \<notin> set object_prototype_keys \<and>
         toLowerCase (strip_ws_dots (js_string sno)) \<notin> set object_prototype_keys"
proof (cases sno)
  case JNull
  then show ?thesis using assms
    by (auto simp: ph_isSectionHeader_def isNumber_def isString_def split: if_splits)
next
  case (JNum x)
  then show ?thesis using number_keys_not_proto [of x] by simp
next
  case (JStr s)
  then have "re_prefix (Seq (Atom is_digit) (Many is_digit)) (trim s)"
    using assms by (auto simp: ph_isSectionHeader_def isNumber_def isString_def split: if_splits)
  then have "key_start (trim s)"
    using digits_prefix_digit is_digit_key_start by blast
  then show ?thesis using JStr string_header_keys by simp
qed

lemma ph_compound_keys:
  assumes "isFlatCompound sno"
  shows "sno \<noteq> JNull \<and> js_string sno \<notin> set object_prototype_keys \<and>
         toLowerCase (strip_ws_dots (js_string sno)) \<notin> set object_prototype_keys"
proof -
  from assms have t: "truthy sno" and m: "matches ph_compound_re (strip_ws_dots (js_string sno))"
    by (auto simp: isFlatCompound_def)
  from m have "key_start (strip_ws_dots (js_string sno))"
    using ph_compound_re_digit is_digit_key_start by blast
  then have "key_start (toLowerCase (strip_ws_dots (js_string sno)))"
    by (rule key_start_lower)
  then have k: "toLowerCase (strip_ws_dots (js_string sno)) \<notin> set object_prototype_keys"
    by (rule key_start_not_proto)
  have "js_string sno \<notin> set object_prototype_keys"
    using m proto_not_compound by blast
  with t k show ?thesis by auto
qed

text \<open>A section as the importer builds it from a header or compound row.\<close>

definition section_ok :: "ssr_section \<Rightarrow> bool" where
  "section_ok sec =
     (item_no sec \<noteq> JNull \<and>
      item_key sec = canonicalKey (item_no sec) \<and>
      category sec = PStr (resolveCategory CATEGORY_MAP
                             (toLowerCase (strip_ws_dots (js_string (item_no sec))))
                             (js_string (item_no sec))) \<and>
      resolveCategory CATEGORY_MAP (toLowerCase (strip_ws_dots (js_string (item_no sec))))
        (js_string (item_no sec)) \<noteq> [])"

lemma buildSection_ok:
  assumes "sno \<noteq> JNull" and "js_string sno \<notin> set object_prototype_keys"
    and "toLowerCase (strip_ws_dots (js_string sno)) \<notin> set object_prototype_keys"
  shows "section_ok (buildSection sno (snoKey sno) desc unit rate)"
proof -
  have n: "js_string (if isNumber sno then sno else JStr (js_string sno)) = js_string sno"
    by (cases sno) (simp_all add: isNumber_def)
  have m: "(if isNumber sno then sno else JStr (js_string sno)) \<noteq> JNull"
    using assms(1) by (cases sno) (simp_all add: isNumber_def)
  show ?thesis
    using or_general_resolve [OF assms(3) assms(2), of CATEGORY_MAP] table_values(1) assms(1) m
    by (simp add: section_ok_def buildSection_def snoKey_def canon_def n table_ok_def)
qed

lemma step_opens_ok:
  assumes "classify st r = SectionHeader \<or> classify st r = Compound"
  shows "\<exists>sec. step st r = Inr (openSection st sec) \<and> section_ok sec \<and>
               item_no sec = trimSno (cell r 1)"
proof -
  let ?sno = "trimSno (cell r 1)"
  have keys: "?sno \<noteq> JNull \<and> js_string ?sno \<notin> set object_prototype_keys \<and>
         toLowerCase (strip_ws_dots (js_string ?sno)) \<notin> set object_prototype_keys"
    using assms header_keys [of ?sno] compound_keys [of ?sno]
    by (auto simp: classify_def Let_def split: if_splits)
  then have ok: "section_ok (buildSection ?sno (snoKey ?sno) (clean (cell r 2)) (clean (cell r 3)) (parseRate (cell r 4)))"
    using buildSection_ok by blast
  have "item_no (buildSection ?sno (snoKey ?sno) (clean (cell r 2)) (clean (cell r 3)) (parseRate (cell r 4))) = ?sno"
    using keys by (cases ?sno) (simp_all add: buildSection_def isNumber_def)
  with ok show ?thesis
    using assms by (auto simp: step_def Let_def)
qed



text \<open>A section as the converter builds it from a header or compound row.\<close>

definition ph_section_ok :: "ph_section \<Rightarrow> bool" where
  "ph_section_ok sec =
     (ph_item_no sec \<noteq> JNull \<and>
      Some (ph_item_key sec) = canonicalKey (ph_item_no sec) \<and>
      ph_category sec = PStr (resolveCategory SECTION_CATEGORIES (ph_item_key sec)
                                (js_string (ph_item_no sec))) \<and>
      resolveCategory SECTION_CATEGORIES (ph_item_key sec) (js_string (ph_item_no sec)) \<noteq> [])"

lemma headerSection_ok:
  assumes "sno \<noteq> JNull" and "js_string sno \<notin> set object_prototype_keys"
    and "toLowerCase (strip_ws_dots (js_string sno)) \<notin> set object_prototype_keys"
  shows "ph_section_ok (headerSection sno desc unit rate n)"
  using or_general_swapped [OF assms(3) assms(2), of SECTION_CATEGORIES] table_values(2) assms(1)
  by (simp add: ph_section_ok_def headerSection_def headerKey_canonical canon_def table_ok_def)

lemma compoundSection_ok:
  assumes "sno \<noteq> JNull" and "js_string sno \<notin> set object_prototype_keys"
    and "toLowerCase (strip_ws_dots (js_string sno)) \<notin> set object_prototype_keys"
  shows "ph_section_ok (compoundSection sno desc unit rate n)"
  using or_general_single [OF assms(3), of SECTION_CATEGORIES "js_string sno"] table_values(2) assms(1)
  by (simp add: ph_section_ok_def compoundSection_def canon_def table_ok_def)

lemma ph_step_opens_ok:
  assumes "ph_classify st r = PSectionHeader \<or> ph_classify st r = PCompound"
  shows "\<exists>mk. ph_step st r = Inr (ph_openSection st mk) \<and>
              (\<forall>n. ph_section_ok (mk n) \<and> ph_item_no (mk n) = trimSno (cell r 1))"
proof -
  let ?sno = "trimSno (cell r 1)"
  have keys: "?sno \<noteq> JNull \<and> js_string ?sno \<notin> set object_prototype_keys \<and>
         toLowerCase (strip_ws_dots (js_string ?sno)) \<notin> set object_prototype_keys"
    using assms ph_header_keys [of ?sno] ph_compound_keys [of ?sno]
    by (auto simp: ph_classify_def Let_def split: if_splits)
  show ?thesis
  proof (cases "ph_classify st r = PSectionHeader")
    case True
    have "\<forall>n. ph_section_ok (headerSection ?sno (cleanStr (cell r 2)) (cleanStr (cell r 3)) (ph_parseRate (cell r 4)) n)
             \<and> ph_item_no (headerSection ?sno (cleanStr (cell r 2)) (cleanStr (cell r 3)) (ph_parseRate (cell r 4)) n) = ?sno"
      using keys headerSection_ok by (simp add: headerSection_def)
    then show ?thesis using True by (auto simp: ph_step_def Let_def)
  next
    case False
    then have c: "ph_classify st r = PCompound" using assms by simp
    have "\<forall>n. ph_section_ok (compoundSection ?sno (cleanStr (cell r 2)) (cleanStr (cell r 3)) (ph_parseRate (cell r 4)) n)
             \<and> ph_item_no (compoundSection ?sno (cleanStr (cell r 2)) (cleanStr (cell r 3)) (ph_parseRate (cell r 4)) n) = ?sno"
      using keys compoundSection_ok by (simp add: compoundSection_def)
    then show ?thesis using c by (auto simp: ph_step_def Let_def)
  qed
qed

text \<open>The later rows change the sub-sections and the items of a section, and nothing
  else of it.\<close>

lemma list_all_update: "list_all P xs \<Longrightarrow> P v \<Longrightarrow> list_all P (xs[i := v])"
  by (auto simp: list_all_iff dest: set_update_subset_insert [THEN subsetD])

lemma list_all_nth: "list_all P xs \<Longrightarrow> i < length xs \<Longrightarrow> P (xs ! i)"
  by (simp add: list_all_iff)

lemma pushSubSection_Inr:
  assumes "pushSubSection st mk = Inr st'"
  shows "\<exists>i. currentSection st = Some i \<and> i < length (sections st) \<and>
             st' = st\<lparr> sections := (sections st)[i := (sections st ! i)
                           \<lparr> sub_sections := sub_sections (sections st ! i) @ [mk (sections st ! i)] \<rparr>],
                        currentSubSection := Some (length (sub_sections (sections st ! i))) \<rparr>"
  using assms by (auto simp: pushSubSection_def Let_def not_le split: option.splits if_splits)

lemma updateTarget_Inr:
  assumes "updateTarget st f = Inr st'"
  shows "\<exists>i. currentSection st = Some i \<and> i < length (sections st) \<and>
           ((currentSubSection st = None \<and>
             st' = st\<lparr> sections := (sections st)[i := (sections st ! i)
                           \<lparr> sec_items := f (sec_items (sections st ! i)) \<rparr>] \<rparr>) \<or>
            (\<exists>j. currentSubSection st = Some j \<and> j < length (sub_sections (sections st ! i)) \<and>
             st' = st\<lparr> sections := (sections st)[i := (sections st ! i)
                           \<lparr> sub_sections := (sub_sections (sections st ! i))
                              [j := (sub_sections (sections st ! i) ! j)
                                 \<lparr> sub_items := f (sub_items (sub_sections (sections st ! i) ! j)) \<rparr>] \<rparr>] \<rparr>))"
  using assms by (auto simp: updateTarget_def Let_def not_le split: option.splits if_splits)

lemma pushSubSection_ok:
  assumes "pushSubSection st mk = Inr st'" and "list_all section_ok (sections st)"
  shows "list_all section_ok (sections st')"
proof -
  from pushSubSection_Inr [OF assms(1)] obtain i sec' where i: "i < length (sections st)"
    and st': "sections st' = (sections st)[i := sec']"
    and sec': "item_no sec' = item_no (sections st ! i)" "item_key sec' = item_key (sections st ! i)"
      "category sec' = category (sections st ! i)"
    by fastforce
  have "section_ok (sections st ! i)" using assms(2) i by (rule list_all_nth)
  then have "section_ok sec'" using sec' by (simp add: section_ok_def)
  then show ?thesis unfolding st' using assms(2) by (simp add: list_all_update)
qed

lemma updateTarget_ok:
  assumes "updateTarget st f = Inr st'" and "list_all section_ok (sections st)"
  shows "list_all section_ok (sections st')"
proof -
  from updateTarget_Inr [OF assms(1)] obtain i sec' where i: "i < length (sections st)"
    and st': "sections st' = (sections st)[i := sec']"
    and sec': "item_no sec' = item_no (sections st ! i)" "item_key sec' = item_key (sections st ! i)"
      "category sec' = category (sections st ! i)"
    by fastforce
  have "section_ok (sections st ! i)" using assms(2) i by (rule list_all_nth)
  then have "section_ok sec'" using sec' by (simp add: section_ok_def)
  then show ?thesis unfolding st' using assms(2) by (simp add: list_all_update)
qed

lemma step_ok:
  assumes "step st r = Inr st'" and "list_all section_ok (sections st)"
  shows "list_all section_ok (sections st')"
proof (cases "classify st r = SectionHeader \<or> classify st r = Compound")
  case True
  then obtain sec where "step st r = Inr (openSection st sec)" "section_ok sec"
    using step_opens_ok by blast
  then show ?thesis using assms by (auto simp: openSection_def)
next
  case False
  then show ?thesis using assms pushSubSection_ok updateTarget_ok
    by (cases "classify st r") (auto simp: step_def Let_def)
qed

lemma run_ok:
  "run st rows = Inr st' \<Longrightarrow> list_all section_ok (sections st) \<Longrightarrow> list_all section_ok (sections st')"
proof (induction rows arbitrary: st)
  case Nil then show ?case by simp
next
  case (Cons r rows)
  then show ?case using step_ok by (auto split: sum.splits)
qed

lemma parseExcel_ok: "parseExcel rows = Inr secs \<Longrightarrow> list_all section_ok secs"
  using run_ok [of init "drop 2 rows"] by (auto simp: parseExcel_def init_def split: sum.splits)



lemma ph_pushSubSection_Inr:
  assumes "ph_pushSubSection st mk = Inr st'"
  shows "\<exists>i. ph_currentSection st = Some i \<and> i < length (ph_sections st) \<and>
             st' = st\<lparr> ph_sections := (ph_sections st)[i := (ph_sections st ! i)
                           \<lparr> ph_sub_sections := ph_sub_sections (ph_sections st ! i) @ [mk (ph_sections st ! i)] \<rparr>],
                        ph_currentSubSection := Some (length (ph_sub_sections (ph_sections st ! i))) \<rparr>"
  using assms by (auto simp: ph_pushSubSection_def Let_def not_le split: option.splits if_splits)

text \<open>What the converter's item rows change: one section, and of it the sub-sections and
  the items only.\<close>

definition ph_same_head :: "ph_section \<Rightarrow> ph_section \<Rightarrow> bool" where
  "ph_same_head a b =
     (ph_id a = ph_id b \<and> ph_item_no a = ph_item_no b \<and> ph_item_key a = ph_item_key b \<and>
      ph_category a = ph_category b \<and> ph_title a = ph_title b \<and> ph_unit a = ph_unit b \<and>
      ph_rate a = ph_rate b)"

lemma ph_pushItem_Inr:
  assumes "ph_pushItem st desc unit rate = Inr st'"
  shows "\<exists>i sec'. i < length (ph_sections st) \<and> ph_sections st' = (ph_sections st)[i := sec'] \<and>
           ph_same_head sec' (ph_sections st ! i)"
  using assms
  by (fastforce simp: ph_pushItem_def Let_def not_le ph_same_head_def split: option.splits if_splits)

lemma ph_rateOnly_Inr:
  assumes "ph_rateOnly st desc rate = Inr st'"
  shows "\<exists>i sec'. i < length (ph_sections st) \<and> ph_sections st' = (ph_sections st)[i := sec'] \<and>
           ph_same_head sec' (ph_sections st ! i)"
  using assms
  by (fastforce simp: ph_rateOnly_def Let_def not_le ph_same_head_def split: option.splits if_splits)

lemma ph_update_ok:
  assumes "i < length (ph_sections st)" and "ph_sections st' = (ph_sections st)[i := sec']"
    and "ph_same_head sec' (ph_sections st ! i)" and "list_all ph_section_ok (ph_sections st)"
  shows "list_all ph_section_ok (ph_sections st')"
proof -
  have "ph_section_ok (ph_sections st ! i)" using assms(4) assms(1) by (rule list_all_nth)
  then have "ph_section_ok sec'" using assms(3) by (simp add: ph_section_ok_def ph_same_head_def)
  then show ?thesis unfolding assms(2) using assms(4) by (simp add: list_all_update)
qed

lemma ph_step_ok:
  assumes "ph_step st r = Inr st'" and "list_all ph_section_ok (ph_sections st)"
  shows "list_all ph_section_ok (ph_sections st')"
proof (cases "ph_classify st r")
  case PSectionHeader
  then obtain mk where "ph_step st r = Inr (ph_openSection st mk)" "\<forall>n. ph_section_ok (mk n)"
    using ph_step_opens_ok [of st r] by blast
  then show ?thesis using assms by (auto simp: ph_openSection_def)
next
  case PCompound
  then obtain mk where "ph_step st r = Inr (ph_openSection st mk)" "\<forall>n. ph_section_ok (mk n)"
    using ph_step_opens_ok [of st r] by blast
  then show ?thesis using assms by (auto simp: ph_openSection_def)
next
  case PSubHeader
  then obtain mk where "ph_pushSubSection st mk = Inr st'"
    using assms(1) by (auto simp: ph_step_def Let_def split: jsval.splits)
  from ph_pushSubSection_Inr [OF this] obtain i sec' where
    "i < length (ph_sections st)" "ph_sections st' = (ph_sections st)[i := sec']"
    "ph_same_head sec' (ph_sections st ! i)"
    by (fastforce simp: ph_same_head_def)
  then show ?thesis using assms(2) by (rule ph_update_ok)
next
  case PPipeHeader
  then obtain mk where "ph_pushSubSection st mk = Inr st'"
    using assms(1) by (auto simp: ph_step_def Let_def)
  from ph_pushSubSection_Inr [OF this] obtain i sec' where
    "i < length (ph_sections st)" "ph_sections st' = (ph_sections st)[i := sec']"
    "ph_same_head sec' (ph_sections st ! i)"
    by (fastforce simp: ph_same_head_def)
  then show ?thesis using assms(2) by (rule ph_update_ok)
next
  case PItem
  then have "ph_pushItem st (cleanStr (cell r 2)) (cleanStr (cell r 3)) (ph_parseRate (cell r 4)) = Inr st'"
    using assms(1) by (simp add: ph_step_def Let_def)
  from ph_pushItem_Inr [OF this] show ?thesis using assms(2) ph_update_ok by blast
next
  case PRateOnly
  then have "ph_rateOnly st (cleanStr (cell r 2)) (ph_parseRate (cell r 4)) = Inr st'"
    using assms(1) by (simp add: ph_step_def Let_def)
  from ph_rateOnly_Inr [OF this] show ?thesis using assms(2) ph_update_ok by blast
qed (use assms in \<open>simp_all add: ph_step_def Let_def\<close>)

lemma ph_run_ok:
  "ph_run st rows = Inr st' \<Longrightarrow> list_all ph_section_ok (ph_sections st) \<Longrightarrow>
   list_all ph_section_ok (ph_sections st')"
proof (induction rows arbitrary: st)
  case Nil then show ?case by simp
next
  case (Cons r rows)
  then show ?case using ph_step_ok by (auto split: sum.splits)
qed

lemma parsePublicHealthXLSX_ok:
  "parsePublicHealthXLSX filePath now rows = Inr res \<Longrightarrow> list_all ph_section_ok (res_sections res)"
  using ph_run_ok [of ph_init "drop 2 rows"]
  by (auto simp: parsePublicHealthXLSX_def ph_init_def split: sum.splits)



text \<open>
  C5. A row classified as a section header or a compound item appends a section whose
  item key is the canonical form of its item number: the item number as a string,
  without white space and dots, in lower case. This holds for the importer and for
  the converter (whose header rows take the dots out in a pass of their own), hence
  for every section either parser returns. An absent item number has no key.
\<close>

theorem section_key_canonical:
  "(classify st r = SectionHeader \<or> classify st r = Compound \<longrightarrow>
      (\<exists>st' sec. step st r = Inr st' \<and> sections st' = sections st @ [sec] \<and>
         item_no sec = trimSno (cell r 1) \<and> item_key sec = canonicalKey (item_no sec))) \<and>
   (ph_classify pst r = PSectionHeader \<or> ph_classify pst r = PCompound \<longrightarrow>
      (\<exists>pst' sec. ph_step pst r = Inr pst' \<and> ph_sections pst' = ph_sections pst @ [sec] \<and>
         ph_item_no sec = trimSno (cell r 1) \<and>
         Some (ph_item_key sec) = canonicalKey (ph_item_no sec))) \<and>
   (parseExcel rows = Inr secs \<longrightarrow>
      (\<forall>sec \<in> set secs. item_key sec = canonicalKey (item_no sec))) \<and>
   (parsePublicHealthXLSX filePath now rows = Inr res \<longrightarrow>
      (\<forall>sec \<in> set (res_sections res). Some (ph_item_key sec) = canonicalKey (ph_item_no sec))) \<and>
   canonicalKey JNull = None \<and> snoKey JNull = None"
proof -
  have a: "\<exists>st' sec. step st r = Inr st' \<and> sections st' = sections st @ [sec] \<and>
         item_no sec = trimSno (cell r 1) \<and> item_key sec = canonicalKey (item_no sec)"
    if "classify st r = SectionHeader \<or> classify st r = Compound"
  proof -
    from step_opens_ok [OF that] obtain sec where
      "step st r = Inr (openSection st sec)" "section_ok sec" "item_no sec = trimSno (cell r 1)"
      by blast
    then show ?thesis by (auto simp: openSection_def section_ok_def)
  qed
  have b: "\<exists>pst' sec. ph_step pst r = Inr pst' \<and> ph_sections pst' = ph_sections pst @ [sec] \<and>
         ph_item_no sec = trimSno (cell r 1) \<and>
         Some (ph_item_key sec) = canonicalKey (ph_item_no sec)"
    if "ph_classify pst r = PSectionHeader \<or> ph_classify pst r = PCompound"
  proof -
    from ph_step_opens_ok [OF that] obtain mk where
      "ph_step pst r = Inr (ph_openSection pst mk)"
      "\<forall>n. ph_section_ok (mk n) \<and> ph_item_no (mk n) = trimSno (cell r 1)"
      by blast
    then show ?thesis by (auto simp: ph_openSection_def ph_section_ok_def)
  qed
  have c: "\<forall>sec \<in> set secs. item_key sec = canonicalKey (item_no sec)"
    if "parseExcel rows = Inr secs"
    using parseExcel_ok [OF that] by (simp add: list_all_iff section_ok_def)
  have d: "\<forall>sec \<in> set (res_sections res). Some (ph_item_key sec) = canonicalKey (ph_item_no sec)"
    if "parsePublicHealthXLSX filePath now rows = Inr res"
    using parsePublicHealthXLSX_ok [OF that] by (simp add: list_all_iff ph_section_ok_def)
  show ?thesis using a b c d by (simp add: canonicalKey_def snoKey_def)
qed

theorem section_key_canonical_witness:
  "classify init [JNull, JStr ''3. A.'', JStr ''Rock cutting''] = SectionHeader \<and>
   step init [JNull, JStr ''3. A.'', JStr ''Rock cutting''] =
     Inr \<lparr> sections =
             [\<lparr> item_no = JStr ''3. A.'', item_key = Some ''3a'',
                category = PStr ''Rock Cutting & Blasting'', title = Some ''Rock cutting'',
                sec_unit = None, sec_rate = JNull, sec_rate_type = None, sub_sections = [],
                sec_items = [] \<rparr>],
           currentSection = Some 0, currentSubSection = None \<rparr> \<and>
   canonicalKey (JStr ''3. A.'') = Some ''3a'' \<and>
   ph_classify ph_init [JNull, JStr ''3. A.'', JStr ''Rock cutting''] = PSectionHeader \<and>
   ph_step ph_init [JNull, JStr ''3. A.'', JStr ''Rock cutting''] =
     Inr \<lparr> ph_sections =
             [\<lparr> ph_id = 1, ph_item_no = JStr ''3. A.'', ph_item_key = ''3a'',
                ph_category = PStr ''General'', ph_title = Some ''Rock cutting'', ph_unit = None,
                ph_rate = JNull, ph_sub_sections = [], ph_items = [], ph_notes = [] \<rparr>],
           ph_currentSection = Some 0, ph_currentSubSection = None,
           sectionIdCounter = 1, itemIdCounter = 0 \<rparr> \<and>
   parseExcel [[], [], [JNull, JStr ''3. A.'', JStr ''Rock cutting'']] =
     Inr [\<lparr> item_no = JStr ''3. A.'', item_key = Some ''3a'',
            category = PStr ''Rock Cutting & Blasting'', title = Some ''Rock cutting'',
            sec_unit = None, sec_rate = JNull, sec_rate_type = None, sub_sections = [],
            sec_items = [] \<rparr>] \<and>
   parsePublicHealthXLSX ''data/publichealth.xlsx'' ''2026-01-01T00:00:00.000Z''
       [[], [], [JNull, JStr ''3. A.'', JStr ''Rock cutting'']] =
     Inr \<lparr> res_title = ''Public Health Items - Schedule of Standard Rates'',
           res_year = ''2005-06'', source_file = ''publichealth.xlsx'',
           parsed_at = ''2026-01-01T00:00:00.000Z'',
           res_sections =
             [\<lparr> ph_id = 1, ph_item_no = JStr ''3. A.'', ph_item_key = ''3a'',
                ph_category = PStr ''General'', ph_title = Some ''Rock cutting'', ph_unit = None,
                ph_rate = JNull, ph_sub_sections = [], ph_items = [], ph_notes = [] \<rparr>] \<rparr>"
  (is "?c = _ \<and> ?s = ?sv \<and> ?k = _ \<and> ?pc = _ \<and> ?ps = ?psv \<and> ?p = Inr ?pv \<and> ?pp = Inr ?ppv")
proof -
  have e1: "?c = SectionHeader" by code_simp
  have e2: "?s = ?sv" by code_simp
  have e3: "?k = Some ''3a''" by code_simp
  have e4: "?pc = PSectionHeader" by code_simp
  have e5: "?ps = ?psv" by code_simp
  have e6: "?p = Inr ?pv" by code_simp
  have e7: "?pp = Inr ?ppv" by code_simp
  show ?thesis
    using section_key_canonical [where st = init and pst = ph_init
        and r = "[JNull, JStr ''3. A.'', JStr ''Rock cutting'']"
        and rows = "[[], [], [JNull, JStr ''3. A.'', JStr ''Rock cutting'']]"
        and secs = ?pv and res = ?ppv
        and filePath = "''data/publichealth.xlsx''" and now = "''2026-01-01T00:00:00.000Z''"]
    unfolding e1 e2 e3 e4 e5 e6 e7 by simp
qed


text \<open>
  C8. Every section that either parser returns has a category, a string that is not
  empty: the table's entry for the canonical item key, else its entry for the item
  number as a string, else \<open>General\<close>. (The converter looks the item number up
  before the key, and not at all for its compound rows; an item number that is in the
  table is its own key, so the category is the same.)
\<close>

theorem section_category_resolved:
  "(parseExcel rows = Inr secs \<longrightarrow>
      (\<forall>sec \<in> set secs. \<exists>k c. item_key sec = Some k \<and> category sec = PStr c \<and> c \<noteq> [] \<and>
         c = resolveCategory CATEGORY_MAP k (js_string (item_no sec)))) \<and>
   (parsePublicHealthXLSX filePath now rows = Inr res \<longrightarrow>
      (\<forall>sec \<in> set (res_sections res). \<exists>c. ph_category sec = PStr c \<and> c \<noteq> [] \<and>
         c = resolveCategory SECTION_CATEGORIES (ph_item_key sec) (js_string (ph_item_no sec))))"
proof -
  have c: "\<forall>sec \<in> set secs. \<exists>k c. item_key sec = Some k \<and> category sec = PStr c \<and> c \<noteq> [] \<and>
         c = resolveCategory CATEGORY_MAP k (js_string (item_no sec))"
    if "parseExcel rows = Inr secs"
    using parseExcel_ok [OF that] by (auto simp: list_all_iff section_ok_def canon_def)
  have d: "\<forall>sec \<in> set (res_sections res). \<exists>c. ph_category sec = PStr c \<and> c \<noteq> [] \<and>
         c = resolveCategory SECTION_CATEGORIES (ph_item_key sec) (js_string (ph_item_no sec))"
    if "parsePublicHealthXLSX filePath now rows = Inr res"
    using parsePublicHealthXLSX_ok [OF that] by (simp add: list_all_iff ph_section_ok_def)
  show ?thesis using c d by simp
qed


theorem section_category_resolved_witness:
  "parseExcel [[], [], [JNull, JNum (Fin 1), JStr ''RATES OF LABOUR''],
               [JNull, JStr ''77 .'', JStr ''Other'']] =
     Inr [\<lparr> item_no = JNum (Fin 1), item_key = Some ''1'', category = PStr ''Labour Rates'',
            title = Some ''RATES OF LABOUR'', sec_unit = None, sec_rate = JNull,
            sec_rate_type = None, sub_sections = [], sec_items = [] \<rparr>,
          \<lparr> item_no = JStr ''77 .'', item_key = Some ''77'', category = PStr ''General'',
            title = Some ''Other'', sec_unit = None, sec_rate = JNull,
            sec_rate_type = None, sub_sections = [], sec_items = [] \<rparr>] \<and>
   resolveCategory CATEGORY_MAP ''1'' ''1'' = ''Labour Rates'' \<and>
   resolveCategory CATEGORY_MAP ''77'' ''77 .'' = ''General'' \<and>
   parsePublicHealthXLSX ''data/publichealth.xlsx'' ''2026-01-01T00:00:00.000Z''
       [[], [], [JNull, JStr ''11 B'', JStr ''RCC pipes'']] =
     Inr \<lparr> res_title = ''Public Health Items - Schedule of Standard Rates'',
           res_year = ''2005-06'', source_file = ''publichealth.xlsx'',
           parsed_at = ''2026-01-01T00:00:00.000Z'',
           res_sections =
             [\<lparr> ph_id = 1, ph_item_no = JStr ''11 B'', ph_item_key = ''11b'',
                ph_category = PStr ''RCC Pipe Laying'', ph_title = Some ''RCC pipes'',
                ph_unit = None, ph_rate = JNull, ph_sub_sections = [], ph_items = [],
                ph_notes = [] \<rparr>] \<rparr> \<and>
   resolveCategory SECTION_CATEGORIES ''11b'' ''11 B'' = ''RCC Pipe Laying''"
  (is "?p = Inr ?pv \<and> ?r1 = _ \<and> ?r2 = _ \<and> ?pp = Inr ?ppv \<and> ?r3 = _")
proof -
  have e1: "?p = Inr ?pv" by code_simp
  have e2: "?r1 = ''Labour Rates''" by code_simp
  have e3: "?r2 = ''General''" by code_simp
  have e4: "?pp = Inr ?ppv" by code_simp
  have e5: "?r3 = ''RCC Pipe Laying''" by code_simp
  show ?thesis
    using section_category_resolved [where
        rows = "[[], [], [JNull, JNum (Fin 1), JStr ''RATES OF LABOUR''],
                 [JNull, JStr ''77 .'', JStr ''Other'']]" and secs = ?pv]
      section_category_resolved [where
        rows = "[[], [], [JNull, JStr ''11 B'', JStr ''RCC pipes'']]" and res = ?ppv
        and filePath = "''data/publichealth.xlsx''" and now = "''2026-01-01T00:00:00.000Z''"]
    unfolding e1 e2 e3 e4 e5 by simp
qed



section \<open>Properties of the builders\<close>

lemma sno_11a:
  "trimSno (JStr ''11.a.'') = JStr ''11.a.''"
  "isSimpleCompound (JStr ''11.a.'')"
  "snoKey (JStr ''11.a.'') = Some ''11a''"
  "or_general (obj_get CATEGORY_MAP ''11a'') (obj_get CATEGORY_MAP ''11.a.'') = PStr ''RCC Pipe Laying''"
  "re_prefix (Seq (Atom is_digit) (Many is_digit)) (trim ''11.a.'')"
  "headerKey (JStr ''11.a.'') = ''11a''"
  "or_general (obj_get SECTION_CATEGORIES ''11.a.'') (obj_get SECTION_CATEGORIES ''11a'') =
     PStr ''RCC Pipe Laying''"
  by code_simp+

text \<open>
  C3. A row whose item number cell is \<open>11.a.\<close>, with no unit and no rate, appends a new
  section with the item key \<open>11a\<close> (category RCC Pipe Laying) and makes it the current
  one; the sections already there stay as they are, so no sub-section is put under a
  section 11. In the importer the row is taken by the compound list, which is tested
  before the header pattern; in the converter the header test, which comes first
  there, takes it, with the same key.
\<close>

theorem compound_11a_opens_section:
  assumes "cell r 1 = JStr ''11.a.''"
  shows
    "(clean (cell r 3) = None \<and> parseRate (cell r 4) = JNull \<longrightarrow>
        classify st r = Compound \<and>
        step st r =
          Inr (st\<lparr> sections := sections st @
                      [\<lparr> item_no = JStr ''11.a.'', item_key = Some ''11a'',
                         category = PStr ''RCC Pipe Laying'', title = clean (cell r 2),
                         sec_unit = None, sec_rate = JNull, sec_rate_type = None,
                         sub_sections = [], sec_items = [] \<rparr>],
                    currentSection := Some (length (sections st)),
                    currentSubSection := None \<rparr>)) \<and>
     (cleanStr (cell r 3) = None \<and> ph_parseRate (cell r 4) = JNull \<longrightarrow>
        ph_classify pst r = PSectionHeader \<and>
        ph_step pst r =
          Inr (pst\<lparr> ph_sections := ph_sections pst @
                       [\<lparr> ph_id = sectionIdCounter pst + 1, ph_item_no = JStr ''11.a.'',
                          ph_item_key = ''11a'', ph_category = PStr ''RCC Pipe Laying'',
                          ph_title = cleanStr (cell r 2), ph_unit = None, ph_rate = JNull,
                          ph_sub_sections = [], ph_items = [], ph_notes = [] \<rparr>],
                     ph_currentSection := Some (length (ph_sections pst)),
                     ph_currentSubSection := None,
                     sectionIdCounter := sectionIdCounter pst + 1 \<rparr>))"
proof (intro conjI impI)
  assume a: "clean (cell r 3) = None \<and> parseRate (cell r 4) = JNull"
  show c: "classify st r = Compound"
    using assms sno_11a(1,2) by (simp add: classify_def Let_def)
  show "step st r =
          Inr (st\<lparr> sections := sections st @
                      [\<lparr> item_no = JStr ''11.a.'', item_key = Some ''11a'',
                         category = PStr ''RCC Pipe Laying'', title = clean (cell r 2),
                         sec_unit = None, sec_rate = JNull, sec_rate_type = None,
                         sub_sections = [], sec_items = [] \<rparr>],
                    currentSection := Some (length (sections st)),
                    currentSubSection := None \<rparr>)"
    using assms a c sno_11a(1,3,4)
    by (simp add: step_def Let_def openSection_def buildSection_def isNumber_def)
next
  assume a: "cleanStr (cell r 3) = None \<and> ph_parseRate (cell r 4) = JNull"
  show c: "ph_classify pst r = PSectionHeader"
    using assms a sno_11a(1,5)
    by (simp add: ph_classify_def Let_def ph_isSectionHeader_def isNumber_def isString_def)
  show "ph_step pst r =
          Inr (pst\<lparr> ph_sections := ph_sections pst @
                       [\<lparr> ph_id = sectionIdCounter pst + 1, ph_item_no = JStr ''11.a.'',
                          ph_item_key = ''11a'', ph_category = PStr ''RCC Pipe Laying'',
                          ph_title = cleanStr (cell r 2), ph_unit = None, ph_rate = JNull,
                          ph_sub_sections = [], ph_items = [], ph_notes = [] \<rparr>],
                     ph_currentSection := Some (length (ph_sections pst)),
                     ph_currentSubSection := None,
                     sectionIdCounter := sectionIdCounter pst + 1 \<rparr>)"
    using assms a c sno_11a(1,6,7)
    by (simp add: ph_step_def Let_def ph_openSection_def headerSection_def)
qed

theorem compound_11a_opens_section_witness:
  "cell [JNull, JStr ''11.a.'', JStr ''RCC pipes'', JNull, JNull] 1 = JStr ''11.a.'' \<and>
   clean (cell [JNull, JStr ''11.a.'', JStr ''RCC pipes'', JNull, JNull] 3) = None \<and>
   parseRate (cell [JNull, JStr ''11.a.'', JStr ''RCC pipes'', JNull, JNull] 4) = JNull \<and>
   cleanStr (cell [JNull, JStr ''11.a.'', JStr ''RCC pipes'', JNull, JNull] 3) = None \<and>
   ph_parseRate (cell [JNull, JStr ''11.a.'', JStr ''RCC pipes'', JNull, JNull] 4) = JNull \<and>
   step \<lparr> sections =
            [\<lparr> item_no = JNum (Fin 11), item_key = Some ''11'', category = PStr ''General'',
               title = Some ''Laying RCC pipes'', sec_unit = None, sec_rate = JNull,
               sec_rate_type = None, sub_sections = [], sec_items = [] \<rparr>],
          currentSection = Some 0, currentSubSection = None \<rparr>
        [JNull, JStr ''11.a.'', JStr ''RCC pipes'', JNull, JNull] =
     Inr \<lparr> sections =
             [\<lparr> item_no = JNum (Fin 11), item_key = Some ''11'', category = PStr ''General'',
                title = Some ''Laying RCC pipes'', sec_unit = None, sec_rate = JNull,
                sec_rate_type = None, sub_sections = [], sec_items = [] \<rparr>,
              \<lparr> item_no = JStr ''11.a.'', item_key = Some ''11a'',
                category = PStr ''RCC Pipe Laying'', title = Some ''RCC pipes'',
                sec_unit = None, sec_rate = JNull, sec_rate_type = None,
                sub_sections = [], sec_items = [] \<rparr>],
           currentSection = Some 1, currentSubSection = None \<rparr> \<and>
   ph_step \<lparr> ph_sections =
               [\<lparr> ph_id = 1, ph_item_no = JNum (Fin 11), ph_item_key = ''11'',
                  ph_category = PStr ''General'', ph_title = Some ''Laying RCC pipes'',
                  ph_unit = None, ph_rate = JNull, ph_sub_sections = [], ph_items = [],
                  ph_notes = [] \<rparr>],
             ph_currentSection = Some 0, ph_currentSubSection = None,
             sectionIdCounter = 1, itemIdCounter = 0 \<rparr>
           [JNull, JStr ''11.a.'', JStr ''RCC pipes'', JNull, JNull] =
     Inr \<lparr> ph_sections =
             [\<lparr> ph_id = 1, ph_item_no = JNum (Fin 11), ph_item_key = ''11'',
                ph_category = PStr ''General'', ph_title = Some ''Laying RCC pipes'',
                ph_unit = None, ph_rate = JNull, ph_sub_sections = [], ph_items = [],
                ph_notes = [] \<rparr>,
              \<lparr> ph_id = 2, ph_item_no = JStr ''11.a.'', ph_item_key = ''11a'',
                ph_category = PStr ''RCC Pipe Laying'', ph_title = Some ''RCC pipes'',
                ph_unit = None, ph_rate = JNull, ph_sub_sections = [], ph_items = [],
                ph_notes = [] \<rparr>],
           ph_currentSection = Some 1, ph_currentSubSection = None,
           sectionIdCounter = 2, itemIdCounter = 0 \<rparr>"
  (is "?c1 = _ \<and> ?u = _ \<and> ?rt = _ \<and> ?pu = _ \<and> ?prt = _ \<and> step ?st ?r = _ \<and> ph_step ?pst _ = _")
proof -
  have e: "?c1 = JStr ''11.a.''" "?u = None" "?rt = JNull" "?pu = None" "?prt = JNull"
    "clean (cell ?r 2) = Some ''RCC pipes''" "cleanStr (cell ?r 2) = Some ''RCC pipes''"
    by code_simp+
  show ?thesis
    using compound_11a_opens_section [OF e(1), of ?st ?pst]
    unfolding e by simp
qed




subsection \<open>The importer never leaves an item without a rate\<close>

text \<open>Every item has a rate.\<close>

definition rated :: "rate_item list \<Rightarrow> bool" where
  "rated its = list_all (\<lambda>it. item_rate it \<noteq> JNull) its"

definition rated_sec :: "ssr_section \<Rightarrow> bool" where
  "rated_sec sec = (rated (sec_items sec) \<and> list_all (\<lambda>sub. rated (sub_items sub)) (sub_sections sec))"

definition all_rated :: "state \<Rightarrow> bool" where
  "all_rated st = list_all rated_sec (sections st)"

text \<open>No section, sub-section or item goes, and no item changes: every list of items
  of the state before starts the list at the same place after.\<close>

definition keeps_items :: "state \<Rightarrow> state \<Rightarrow> bool" where
  "keeps_items st st' =
     (length (sections st) \<le> length (sections st') \<and>
      (\<forall>i < length (sections st).
         prefix (sec_items (sections st ! i)) (sec_items (sections st' ! i)) \<and>
         length (sub_sections (sections st ! i)) \<le> length (sub_sections (sections st' ! i)) \<and>
         (\<forall>j < length (sub_sections (sections st ! i)).
            prefix (sub_items (sub_sections (sections st ! i) ! j))
                   (sub_items (sub_sections (sections st' ! i) ! j)))))"

lemma rated_append: "rated t \<Longrightarrow> item_rate x \<noteq> JNull \<Longrightarrow> rated (t @ [x])"
  by (simp add: rated_def)

lemma repairTarget_rated:
  assumes "rated t"
  shows "repairTarget desc rate t = t @ [buildRateItem desc None rate]"
proof (cases t rule: rev_cases)
  case Nil
  then show ?thesis by (simp add: repairTarget_def)
next
  case (snoc ys y)
  then have "item_rate y \<noteq> JNull" using assms by (simp add: rated_def)
  then show ?thesis using snoc by (simp add: repairTarget_def nth_append)
qed

lemma buildRateItem_rate: "item_rate (buildRateItem desc unit rate) = rate"
  by (simp add: buildRateItem_def)

lemma updateTarget_rated:
  assumes "updateTarget st f = Inr st'" and "all_rated st" and "\<And>t. rated t \<Longrightarrow> rated (f t)"
  shows "all_rated st'"
proof -
  from updateTarget_Inr [OF assms(1)] obtain i where i: "i < length (sections st)"
    and cases: "(currentSubSection st = None \<and>
             st' = st\<lparr> sections := (sections st)[i := (sections st ! i)
                           \<lparr> sec_items := f (sec_items (sections st ! i)) \<rparr>] \<rparr>) \<or>
            (\<exists>j. currentSubSection st = Some j \<and> j < length (sub_sections (sections st ! i)) \<and>
             st' = st\<lparr> sections := (sections st)[i := (sections st ! i)
                           \<lparr> sub_sections := (sub_sections (sections st ! i))
                              [j := (sub_sections (sections st ! i) ! j)
                                 \<lparr> sub_items := f (sub_items (sub_sections (sections st ! i) ! j)) \<rparr>] \<rparr>] \<rparr>)"
    by blast
  have sec: "rated_sec (sections st ! i)"
    using assms(2) i unfolding all_rated_def by (rule list_all_nth)
  from cases show ?thesis
  proof
    assume a: "currentSubSection st = None \<and>
             st' = st\<lparr> sections := (sections st)[i := (sections st ! i)
                           \<lparr> sec_items := f (sec_items (sections st ! i)) \<rparr>] \<rparr>"
    have "rated_sec ((sections st ! i)\<lparr> sec_items := f (sec_items (sections st ! i)) \<rparr>)"
      using sec assms(3) by (simp add: rated_sec_def)
    then show ?thesis using a assms(2) by (simp add: all_rated_def list_all_update)
  next
    assume "\<exists>j. currentSubSection st = Some j \<and> j < length (sub_sections (sections st ! i)) \<and>
             st' = st\<lparr> sections := (sections st)[i := (sections st ! i)
                           \<lparr> sub_sections := (sub_sections (sections st ! i))
                              [j := (sub_sections (sections st ! i) ! j)
                                 \<lparr> sub_items := f (sub_items (sub_sections (sections st ! i) ! j)) \<rparr>] \<rparr>] \<rparr>"
    then obtain j where j: "j < length (sub_sections (sections st ! i))"
      and st': "st' = st\<lparr> sections := (sections st)[i := (sections st ! i)
                           \<lparr> sub_sections := (sub_sections (sections st ! i))
                              [j := (sub_sections (sections st ! i) ! j)
                                 \<lparr> sub_items := f (sub_items (sub_sections (sections st ! i) ! j)) \<rparr>] \<rparr>] \<rparr>"
      by blast
    have "rated (sub_items (sub_sections (sections st ! i) ! j))"
      using sec j by (simp add: rated_sec_def list_all_iff)
    then have "rated (f (sub_items (sub_sections (sections st ! i) ! j)))" by (rule assms(3))
    then have "rated_sec ((sections st ! i)
                           \<lparr> sub_sections := (sub_sections (sections st ! i))
                              [j := (sub_sections (sections st ! i) ! j)
                                 \<lparr> sub_items := f (sub_items (sub_sections (sections st ! i) ! j)) \<rparr>] \<rparr>)"
      using sec by (simp add: rated_sec_def list_all_update)
    then show ?thesis using st' assms(2) by (simp add: all_rated_def list_all_update)
  qed
qed

lemma pushSubSection_rated:
  assumes "pushSubSection st mk = Inr st'" and "all_rated st" and "\<And>sec. sub_items (mk sec) = []"
  shows "all_rated st'"
proof -
  from pushSubSection_Inr [OF assms(1)] obtain i where i: "i < length (sections st)"
    and st': "st' = st\<lparr> sections := (sections st)[i := (sections st ! i)
                           \<lparr> sub_sections := sub_sections (sections st ! i) @ [mk (sections st ! i)] \<rparr>],
                        currentSubSection := Some (length (sub_sections (sections st ! i))) \<rparr>"
    by blast
  have "rated_sec (sections st ! i)"
    using assms(2) i unfolding all_rated_def by (rule list_all_nth)
  then have "rated_sec ((sections st ! i)
                \<lparr> sub_sections := sub_sections (sections st ! i) @ [mk (sections st ! i)] \<rparr>)"
    using assms(3) by (simp add: rated_sec_def rated_def)
  then show ?thesis using st' assms(2) by (simp add: all_rated_def list_all_update)
qed

lemma classify_rate:
  "classify st r = RateItemRow \<or> classify st r = RateOnlyRow \<Longrightarrow> parseRate (cell r 4) \<noteq> JNull"
  by (auto simp: classify_def Let_def split: if_splits)

lemma step_rated:
  assumes "step st r = Inr st'" and "all_rated st"
  shows "all_rated st'"
proof (cases "classify st r")
  case Compound
  then show ?thesis using assms
    by (auto simp: step_def Let_def openSection_def all_rated_def rated_sec_def rated_def buildSection_def)
next
  case SectionHeader
  then show ?thesis using assms
    by (auto simp: step_def Let_def openSection_def all_rated_def rated_sec_def rated_def buildSection_def)
next
  case SubSectionHeader
  then show ?thesis using assms pushSubSection_rated by (auto simp: step_def Let_def)
next
  case AutoSubSection
  then show ?thesis using assms pushSubSection_rated by (auto simp: step_def Let_def)
next
  case RateItemRow
  then have u: "updateTarget st (\<lambda>target. target @
      [buildRateItem (clean (cell r 2)) (clean (cell r 3)) (parseRate (cell r 4))]) = Inr st'"
    using assms(1) by (simp add: step_def Let_def)
  show ?thesis
    using updateTarget_rated [OF u assms(2)] classify_rate [of st r] RateItemRow
    by (simp add: rated_append buildRateItem_rate)
next
  case RateOnlyRow
  then have u: "updateTarget st (repairTarget (clean (cell r 2)) (parseRate (cell r 4))) = Inr st'"
    using assms(1) by (simp add: step_def Let_def)
  show ?thesis
    using updateTarget_rated [OF u assms(2)] classify_rate [of st r] RateOnlyRow
    by (simp add: repairTarget_rated rated_append buildRateItem_rate)
qed (use assms in \<open>simp_all add: step_def Let_def\<close>)

lemma run_rated: "run st rows = Inr st' \<Longrightarrow> all_rated st \<Longrightarrow> all_rated st'"
proof (induction rows arbitrary: st)
  case Nil then show ?case by simp
next
  case (Cons r rows)
  then show ?case using step_rated by (auto split: sum.splits)
qed

lemma all_rated_init: "all_rated init"
  by (simp add: all_rated_def init_def)



lemma updateTarget_cong:
  assumes "all_rated st" and "\<And>t. rated t \<Longrightarrow> f t = g t"
  shows "updateTarget st f = updateTarget st g"
proof (cases "currentSection st")
  case None
  then show ?thesis by (simp add: updateTarget_def)
next
  case (Some i)
  show ?thesis
  proof (cases "i < length (sections st)")
    case False
    then show ?thesis using Some by (simp add: updateTarget_def)
  next
    case True
    have sec: "rated_sec (sections st ! i)"
      using assms(1) True unfolding all_rated_def by (rule list_all_nth)
    show ?thesis
    proof (cases "currentSubSection st")
      case None
      have "f (sec_items (sections st ! i)) = g (sec_items (sections st ! i))"
        using sec assms(2) by (simp add: rated_sec_def)
      then show ?thesis using Some True None by (simp add: updateTarget_def Let_def)
    next
      case (Some j)
      show ?thesis
      proof (cases "j < length (sub_sections (sections st ! i))")
        case False
        then show ?thesis using \<open>currentSection st = Some i\<close> True Some
          by (simp add: updateTarget_def Let_def)
      next
        case j: True
        have "rated (sub_items (sub_sections (sections st ! i) ! j))"
          using sec j by (simp add: rated_sec_def list_all_iff)
        then have "f (sub_items (sub_sections (sections st ! i) ! j)) =
                   g (sub_items (sub_sections (sections st ! i) ! j))"
          by (rule assms(2))
        then show ?thesis using \<open>currentSection st = Some i\<close> True Some j
          by (simp add: updateTarget_def Let_def)
      qed
    qed
  qed
qed

lemma keeps_items_refl: "keeps_items st st"
  by (simp add: keeps_items_def)

lemma openSection_keeps: "keeps_items st (openSection st sec)"
  by (simp add: keeps_items_def openSection_def nth_append)

lemma pushSubSection_keeps:
  assumes "pushSubSection st mk = Inr st'"
  shows "keeps_items st st'"
proof -
  from pushSubSection_Inr [OF assms] obtain i where i: "i < length (sections st)"
    and st': "st' = st\<lparr> sections := (sections st)[i := (sections st ! i)
                           \<lparr> sub_sections := sub_sections (sections st ! i) @ [mk (sections st ! i)] \<rparr>],
                        currentSubSection := Some (length (sub_sections (sections st ! i))) \<rparr>"
    by blast
  show ?thesis unfolding st' keeps_items_def using i
    by (auto simp: nth_list_update nth_append)
qed

lemma updateTarget_keeps:
  assumes "updateTarget st f = Inr st'" and "\<And>t. prefix t (f t)"
  shows "keeps_items st st'"
proof -
  from updateTarget_Inr [OF assms(1)] obtain i where i: "i < length (sections st)"
    and cases: "(currentSubSection st = None \<and>
             st' = st\<lparr> sections := (sections st)[i := (sections st ! i)
                           \<lparr> sec_items := f (sec_items (sections st ! i)) \<rparr>] \<rparr>) \<or>
            (\<exists>j. currentSubSection st = Some j \<and> j < length (sub_sections (sections st ! i)) \<and>
             st' = st\<lparr> sections := (sections st)[i := (sections st ! i)
                           \<lparr> sub_sections := (sub_sections (sections st ! i))
                              [j := (sub_sections (sections st ! i) ! j)
                                 \<lparr> sub_items := f (sub_items (sub_sections (sections st ! i) ! j)) \<rparr>] \<rparr>] \<rparr>)"
    by blast
  from cases show ?thesis
  proof
    assume "currentSubSection st = None \<and>
             st' = st\<lparr> sections := (sections st)[i := (sections st ! i)
                           \<lparr> sec_items := f (sec_items (sections st ! i)) \<rparr>] \<rparr>"
    then show ?thesis unfolding keeps_items_def using assms(2) i
      by (auto simp: nth_list_update)
  next
    assume "\<exists>j. currentSubSection st = Some j \<and> j < length (sub_sections (sections st ! i)) \<and>
             st' = st\<lparr> sections := (sections st)[i := (sections st ! i)
                           \<lparr> sub_sections := (sub_sections (sections st ! i))
                              [j := (sub_sections (sections st ! i) ! j)
                                 \<lparr> sub_items := f (sub_items (sub_sections (sections st ! i) ! j)) \<rparr>] \<rparr>] \<rparr>"
    then obtain j where j: "j < length (sub_sections (sections st ! i))" and "st' = st\<lparr> sections := (sections st)[i := (sections st ! i)
                           \<lparr> sub_sections := (sub_sections (sections st ! i))
                              [j := (sub_sections (sections st ! i) ! j)
                                 \<lparr> sub_items := f (sub_items (sub_sections (sections st ! i) ! j)) \<rparr>] \<rparr>] \<rparr>"
      by blast
    then show ?thesis unfolding keeps_items_def using assms(2) i j
      by (auto simp: nth_list_update)
  qed
qed

lemma step_rate_only_pushes:
  assumes "all_rated st" and "classify st r = RateOnlyRow"
  shows "step st r = updateTarget st (\<lambda>target. target @
           [buildRateItem (clean (cell r 2)) None (parseRate (cell r 4))])"
  using assms(2) updateTarget_cong [OF assms(1), of "repairTarget (clean (cell r 2)) (parseRate (cell r 4))"
      "\<lambda>target. target @ [buildRateItem (clean (cell r 2)) None (parseRate (cell r 4))]"]
  by (simp add: step_def Let_def repairTarget_rated)

lemma step_keeps:
  assumes "step st r = Inr st'" and "all_rated st"
  shows "keeps_items st st'"
proof (cases "classify st r")
  case RateOnlyRow
  then have "updateTarget st (\<lambda>target. target @
           [buildRateItem (clean (cell r 2)) None (parseRate (cell r 4))]) = Inr st'"
    using step_rate_only_pushes [OF assms(2)] assms(1) by simp
  then show ?thesis by (rule updateTarget_keeps) simp
next
  case RateItemRow
  then have "updateTarget st (\<lambda>target. target @
      [buildRateItem (clean (cell r 2)) (clean (cell r 3)) (parseRate (cell r 4))]) = Inr st'"
    using assms(1) by (simp add: step_def Let_def)
  then show ?thesis by (rule updateTarget_keeps) simp
next
  case SubSectionHeader
  then show ?thesis using assms(1) pushSubSection_keeps by (auto simp: step_def Let_def)
next
  case AutoSubSection
  then show ?thesis using assms(1) pushSubSection_keeps by (auto simp: step_def Let_def)
qed (use assms(1) in \<open>auto simp: step_def Let_def keeps_items_refl openSection_keeps\<close>)



text \<open>
  C9. In \<open>parseExcel\<close> of the importer every rate item is created with a rate that is
  not null, so every item of every section and sub-section, after any rows, has a
  rate. The branch of the rate-only row that fills in a missing rate is therefore
  never taken: a rate-only row always appends a new item to the target list, and no
  row changes or removes an item that is already there (each list of items is a
  prefix of what it is after the row).
\<close>

theorem items_always_rated:
  "(parseExcel rows = Inr secs \<longrightarrow>
      (\<forall>sec \<in> set secs.
         (\<forall>it \<in> set (sec_items sec). item_rate it \<noteq> JNull) \<and>
         (\<forall>sub \<in> set (sub_sections sec). \<forall>it \<in> set (sub_items sub). item_rate it \<noteq> JNull))) \<and>
   (run init history = Inr st \<longrightarrow>
      (\<forall>sec \<in> set (sections st).
         (\<forall>it \<in> set (sec_items sec). item_rate it \<noteq> JNull) \<and>
         (\<forall>sub \<in> set (sub_sections sec). \<forall>it \<in> set (sub_items sub). item_rate it \<noteq> JNull)) \<and>
      (classify st r = RateOnlyRow \<longrightarrow>
         step st r = updateTarget st (\<lambda>target. target @
                       [buildRateItem (clean (cell r 2)) None (parseRate (cell r 4))])) \<and>
      (\<forall>st'. step st r = Inr st' \<longrightarrow> keeps_items st st'))"
proof (intro conjI impI)
  assume "parseExcel rows = Inr secs"
  then obtain st0 where "run init (drop 2 rows) = Inr st0" "secs = sections st0"
    by (auto simp: parseExcel_def split: sum.splits)
  then have "all_rated st0 \<and> secs = sections st0"
    using run_rated [OF _ all_rated_init] by simp
  then show "\<forall>sec \<in> set secs.
         (\<forall>it \<in> set (sec_items sec). item_rate it \<noteq> JNull) \<and>
         (\<forall>sub \<in> set (sub_sections sec). \<forall>it \<in> set (sub_items sub). item_rate it \<noteq> JNull)"
    by (simp add: all_rated_def rated_sec_def rated_def list_all_iff)
next
  assume "run init history = Inr st"
  then have r: "all_rated st" using run_rated [OF _ all_rated_init] by simp
  then show "\<forall>sec \<in> set (sections st).
         (\<forall>it \<in> set (sec_items sec). item_rate it \<noteq> JNull) \<and>
         (\<forall>sub \<in> set (sub_sections sec). \<forall>it \<in> set (sub_items sub). item_rate it \<noteq> JNull)"
    by (simp add: all_rated_def rated_sec_def rated_def list_all_iff)
  show "step st r = updateTarget st (\<lambda>target. target @
                       [buildRateItem (clean (cell r 2)) None (parseRate (cell r 4))])"
    if "classify st r = RateOnlyRow"
    using r that by (rule step_rate_only_pushes)
  show "\<forall>st'. step st r = Inr st' \<longrightarrow> keeps_items st st'"
    using r step_keeps by blast
qed

theorem items_always_rated_witness:
  "run init [[JNull, JNum (Fin 33), JStr ''Centering''],
             [JNull, JNull, JStr ''80 mm'', JStr ''rm'', JNum (Fin 120)]] =
     Inr \<lparr> sections =
             [\<lparr> item_no = JNum (Fin 33), item_key = Some ''33'',
                category = PStr ''Centering & Scaffolding'', title = Some ''Centering'',
                sec_unit = None, sec_rate = JNull, sec_rate_type = None, sub_sections = [],
                sec_items = [\<lparr> dimension = Some ''80'', item_unit = Some ''rm'',
                               item_rate = JNum (Fin 120), item_rate_type = Numeric \<rparr>] \<rparr>],
           currentSection = Some 0, currentSubSection = None \<rparr> \<and>
   classify \<lparr> sections =
             [\<lparr> item_no = JNum (Fin 33), item_key = Some ''33'',
                category = PStr ''Centering & Scaffolding'', title = Some ''Centering'',
                sec_unit = None, sec_rate = JNull, sec_rate_type = None, sub_sections = [],
                sec_items = [\<lparr> dimension = Some ''80'', item_unit = Some ''rm'',
                               item_rate = JNum (Fin 120), item_rate_type = Numeric \<rparr>] \<rparr>],
           currentSection = Some 0, currentSubSection = None \<rparr>
        [JNull, JNull, JNull, JNull, JNum (Fin (491 / 2))] = RateOnlyRow \<and>
   step \<lparr> sections =
             [\<lparr> item_no = JNum (Fin 33), item_key = Some ''33'',
                category = PStr ''Centering & Scaffolding'', title = Some ''Centering'',
                sec_unit = None, sec_rate = JNull, sec_rate_type = None, sub_sections = [],
                sec_items = [\<lparr> dimension = Some ''80'', item_unit = Some ''rm'',
                               item_rate = JNum (Fin 120), item_rate_type = Numeric \<rparr>] \<rparr>],
           currentSection = Some 0, currentSubSection = None \<rparr>
        [JNull, JNull, JNull, JNull, JNum (Fin (491 / 2))] =
     Inr \<lparr> sections =
             [\<lparr> item_no = JNum (Fin 33), item_key = Some ''33'',
                category = PStr ''Centering & Scaffolding'', title = Some ''Centering'',
                sec_unit = None, sec_rate = JNull, sec_rate_type = None, sub_sections = [],
                sec_items = [\<lparr> dimension = Some ''80'', item_unit = Some ''rm'',
                               item_rate = JNum (Fin 120), item_rate_type = Numeric \<rparr>,
                             \<lparr> dimension = None, item_unit = None,
                               item_rate = JNum (Fin (491 / 2)), item_rate_type = Numeric \<rparr>] \<rparr>],
           currentSection = Some 0, currentSubSection = None \<rparr> \<and>
   keeps_items
     \<lparr> sections =
             [\<lparr> item_no = JNum (Fin 33), item_key = Some ''33'',
                category = PStr ''Centering & Scaffolding'', title = Some ''Centering'',
                sec_unit = None, sec_rate = JNull, sec_rate_type = None, sub_sections = [],
                sec_items = [\<lparr> dimension = Some ''80'', item_unit = Some ''rm'',
                               item_rate = JNum (Fin 120), item_rate_type = Numeric \<rparr>] \<rparr>],
           currentSection = Some 0, currentSubSection = None \<rparr>
     \<lparr> sections =
             [\<lparr> item_no = JNum (Fin 33), item_key = Some ''33'',
                category = PStr ''Centering & Scaffolding'', title = Some ''Centering'',
                sec_unit = None, sec_rate = JNull, sec_rate_type = None, sub_sections = [],
                sec_items = [\<lparr> dimension = Some ''80'', item_unit = Some ''rm'',
                               item_rate = JNum (Fin 120), item_rate_type = Numeric \<rparr>,
                             \<lparr> dimension = None, item_unit = None,
                               item_rate = JNum (Fin (491 / 2)), item_rate_type = Numeric \<rparr>] \<rparr>],
           currentSection = Some 0, currentSubSection = None \<rparr> \<and>
   parseExcel [[], [], [JNull, JNum (Fin 33), JStr ''Centering''],
             [JNull, JNull, JStr ''80 mm'', JStr ''rm'', JNum (Fin 120)]] =
     Inr [\<lparr> item_no = JNum (Fin 33), item_key = Some ''33'',
                category = PStr ''Centering & Scaffolding'', title = Some ''Centering'',
                sec_unit = None, sec_rate = JNull, sec_rate_type = None, sub_sections = [],
                sec_items = [\<lparr> dimension = Some ''80'', item_unit = Some ''rm'',
                               item_rate = JNum (Fin 120), item_rate_type = Numeric \<rparr>] \<rparr>]"
  (is "run init ?h = Inr ?st \<and> classify _ ?r = _ \<and> step _ _ = Inr ?st' \<and> keeps_items _ _ \<and> parseExcel ?rows = Inr ?secs")
proof -
  have e1: "run init ?h = Inr ?st" by code_simp
  have e2: "classify ?st ?r = RateOnlyRow" by code_simp
  have e3: "step ?st ?r = Inr ?st'" by code_simp
  have e4: "parseExcel ?rows = Inr ?secs" by code_simp
  show ?thesis
    using items_always_rated [where history = ?h and st = ?st and r = ?r and rows = ?rows and secs = ?secs]
    unfolding e1 e2 e3 e4 by simp
qed



subsection \<open>The rate-only row\<close>

lemma header_needs_no_rate: "isSectionHeader sno unit rate \<Longrightarrow> rate = JNull"
  by (auto simp: isSectionHeader_def split: if_splits)

lemma sub_needs_no_rate: "isSubSection sno unit rate \<Longrightarrow> rate = JNull"
  by (auto simp: isSubSection_def)


lemma classify_RateOnlyRow:
  "classify st r = RateOnlyRow \<longleftrightarrow>
     currentSection st \<noteq> None \<and> parseRate (cell r 4) \<noteq> JNull \<and>
     \<not> truthy_s (clean (cell r 3)) \<and> \<not> truthy (trimSno (cell r 1)) \<and>
     \<not> (truthy_s (clean (cell r 2)) \<and> \<not> isSkip (clean (cell r 2)) \<and>
        re_search auto_re (the (clean (cell r 2))))"
  using header_needs_no_rate [of "trimSno (cell r 1)" "clean (cell r 3)" "parseRate (cell r 4)"]
    sub_needs_no_rate [of "trimSno (cell r 1)" "clean (cell r 3)" "parseRate (cell r 4)"]
  unfolding classify_def Let_def
  by (cases "parseRate (cell r 4) = JNull"; cases "truthy (trimSno (cell r 1))";
      cases "truthy_s (clean (cell r 3))"; cases "currentSection st = None") auto

lemma repairTarget_cases:
  "(target = [] \<and> truthy_s d \<longrightarrow> repairTarget d rt target = [buildRateItem d None rt]) \<and>
   (target \<noteq> [] \<and> item_rate (last target) = JNull \<longrightarrow>
      repairTarget d rt target = butlast target @ [(last target)\<lparr> item_rate := rt \<rparr>]) \<and>
   (\<not> (target = [] \<and> truthy_s d) \<and> \<not> (target \<noteq> [] \<and> item_rate (last target) = JNull) \<longrightarrow>
      repairTarget d rt target = target @ [buildRateItem d None rt])"
proof (cases target rule: rev_cases)
  case Nil
  then show ?thesis by (simp add: repairTarget_def)
next
  case (snoc ys y)
  then show ?thesis by (simp add: repairTarget_def nth_append)
qed


lemma step_rate_only_target:
  assumes "wf st" and "classify st r = RateOnlyRow"
  shows "\<exists>i. currentSection st = Some i \<and> i < length (sections st) \<and>
          (currentSubSection st = None \<longrightarrow>
             step st r =
               Inr (st\<lparr> sections := (sections st)[i := (sections st ! i)
                      \<lparr> sec_items := repairTarget (clean (cell r 2)) (parseRate (cell r 4))
                                       (sec_items (sections st ! i)) \<rparr>] \<rparr>)) \<and>
          (\<forall>j. currentSubSection st = Some j \<longrightarrow>
             j < length (sub_sections (sections st ! i)) \<and>
             step st r =
               Inr (st\<lparr> sections := (sections st)[i := (sections st ! i)
                      \<lparr> sub_sections := (sub_sections (sections st ! i))
                         [j := (sub_sections (sections st ! i) ! j)
                            \<lparr> sub_items := repairTarget (clean (cell r 2)) (parseRate (cell r 4))
                                             (sub_items (sub_sections (sections st ! i) ! j)) \<rparr>] \<rparr>] \<rparr>))"
proof -
  from assms(2) have "currentSection st \<noteq> None" using classify_open [of st r] by simp
  then obtain i where i: "currentSection st = Some i" by auto
  then have b: "i < length (sections st)" using assms(1) by (simp add: wf_def)
  have s: "step st r = updateTarget st (repairTarget (clean (cell r 2)) (parseRate (cell r 4)))"
    using assms(2) by (simp add: step_def Let_def)
  have "j < length (sub_sections (sections st ! i))" if "currentSubSection st = Some j" for j
    using assms(1) i that by (simp add: wf_def)
  then show ?thesis using i b s
    by (auto simp: updateTarget_def Let_def split: option.splits)
qed

lemma ph_step_rate_only_target:
  assumes "ph_wf pst" and "ph_classify pst r = PRateOnly"
  shows "\<exists>i. ph_currentSection pst = Some i \<and> i < length (ph_sections pst) \<and>
          ph_step pst r =
            Inr (if 0 < length (ph_items (ph_sections pst ! i)) \<and>
                    \<not> truthy (ph_item_rate (last (ph_items (ph_sections pst ! i))))
                 then pst\<lparr> ph_sections := (ph_sections pst)[i := (ph_sections pst ! i)
                            \<lparr> ph_items := butlast (ph_items (ph_sections pst ! i)) @
                                 [(last (ph_items (ph_sections pst ! i)))
                                    \<lparr> ph_item_rate := ph_parseRate (cell r 4) \<rparr>] \<rparr>] \<rparr>
                 else pst\<lparr> ph_sections := (ph_sections pst)[i := (ph_sections pst ! i)
                            \<lparr> ph_items := ph_items (ph_sections pst ! i) @
                                 [\<lparr> ph_item_id = itemIdCounter pst + 1,
                                    section_item_no = ph_item_no (ph_sections pst ! i),
                                    ph_dimension = cleanStr (cell r 2),
                                    ph_item_unit = None,
                                    ph_item_rate = ph_parseRate (cell r 4),
                                    ph_item_rate_type = rateTypeOf (ph_parseRate (cell r 4)) \<rparr>] \<rparr>],
                          itemIdCounter := itemIdCounter pst + 1 \<rparr>)"
proof -
  from assms(2) have "ph_currentSection pst \<noteq> None" using ph_classify_open [of pst r] by simp
  then obtain i where i: "ph_currentSection pst = Some i" by auto
  then have b: "i < length (ph_sections pst)" using assms(1) by (simp add: ph_wf_def)
  have s: "ph_step pst r = ph_rateOnly pst (cleanStr (cell r 2)) (ph_parseRate (cell r 4))"
    using assms(2) by (simp add: ph_step_def Let_def)
  show ?thesis
  proof (cases "ph_items (ph_sections pst ! i)" rule: rev_cases)
    case Nil
    then show ?thesis using i b s by (simp add: ph_rateOnly_def Let_def)
  next
    case (snoc ys y)
    then show ?thesis using i b s by (simp add: ph_rateOnly_def Let_def nth_append)
  qed
qed



lemma ph_classify_PRateOnly:
  "ph_classify pst r = PRateOnly \<longleftrightarrow>
     ph_currentSection pst \<noteq> None \<and> ph_parseRate (cell r 4) \<noteq> JNull \<and>
     \<not> truthy_s (cleanStr (cell r 3)) \<and> \<not> isFlatCompound (trimSno (cell r 1))"
proof -
  have h: "ph_isSectionHeader sno desc unit rate \<Longrightarrow> rate = JNull" for sno desc unit rate
    by (auto simp: ph_isSectionHeader_def split: if_splits)
  have s: "isSubHeader sno desc unit rate \<Longrightarrow> rate = JNull" for sno desc unit rate
    by (auto simp: isSubHeader_def)
  show ?thesis
    using h [of "trimSno (cell r 1)" "cleanStr (cell r 2)" "cleanStr (cell r 3)" "ph_parseRate (cell r 4)"]
      s [of "trimSno (cell r 1)" "cleanStr (cell r 2)" "cleanStr (cell r 3)" "ph_parseRate (cell r 4)"]
    unfolding ph_classify_def Let_def
    by (cases "ph_parseRate (cell r 4) = JNull"; cases "isFlatCompound (trimSno (cell r 1))";
        cases "truthy_s (cleanStr (cell r 3))"; cases "ph_currentSection pst = None") auto
qed

text \<open>
  C1. A sheet with the section 12, its sub-section \<open>a\<close>, one item with a unit and
  then a row with a rate, no unit and no item number. The importer gives the new item
  to the open sub-section, as the claim says. The converter gives it to the items of
  the section and leaves the sub-section as it was, while its branch for a row with a
  unit, a few lines above, takes the open sub-section.
\<close>

theorem rate_only_row_ignores_sub_section:
  "parseExcel
     [[], [],
      [JNull, JNum (Fin 12), JStr ''Laying pipes''],
      [JNull, JStr ''a'', JStr ''G.I. PIPES''],
      [JNull, JNull, JStr ''15'', JStr ''rm'', JNum (Fin 10)],
      [JNull, JNull, JStr ''20'', JNull, JNum (Fin 14)]] =
     Inr [\<lparr> item_no = JNum (Fin 12), item_key = Some ''12'',
            category = PStr ''GI/PVC/HDPE Pipe Laying'', title = Some ''Laying pipes'',
            sec_unit = None, sec_rate = JNull, sec_rate_type = None,
            sub_sections =
              [\<lparr> sub_id = ''a'', description = Some ''G.I. PIPES'',
                 sub_items =
                   [\<lparr> dimension = Some ''15'', item_unit = Some ''rm'',
                      item_rate = JNum (Fin 10), item_rate_type = Numeric \<rparr>,
                    \<lparr> dimension = Some ''20'', item_unit = None,
                      item_rate = JNum (Fin 14), item_rate_type = Numeric \<rparr>] \<rparr>],
            sec_items = [] \<rparr>] \<and>
   parsePublicHealthXLSX ''publichealth.xlsx'' ''2024-01-01T00:00:00.000Z''
     [[], [],
      [JNull, JNum (Fin 12), JStr ''Laying pipes''],
      [JNull, JStr ''a'', JStr ''G.I. PIPES''],
      [JNull, JNull, JStr ''15'', JStr ''rm'', JNum (Fin 10)],
      [JNull, JNull, JStr ''20'', JNull, JNum (Fin 14)]] =
     Inr \<lparr> res_title = ''Public Health Items - Schedule of Standard Rates'',
           res_year = ''2005-06'', source_file = ''publichealth.xlsx'',
           parsed_at = ''2024-01-01T00:00:00.000Z'',
           res_sections =
             [\<lparr> ph_id = 1, ph_item_no = JNum (Fin 12), ph_item_key = ''12'',
                ph_category = PStr ''GI / PVC / HDPE Pipe Laying'',
                ph_title = Some ''Laying pipes'', ph_unit = None, ph_rate = JNull,
                ph_sub_sections =
                  [\<lparr> ph_sub_id = ''a'', ph_description = Some ''G.I. PIPES'',
                     ph_sub_items =
                       [\<lparr> ph_item_id = 1, section_item_no = JNum (Fin 12),
                          ph_dimension = Some ''15'', ph_item_unit = Some ''rm'',
                          ph_item_rate = JNum (Fin 10), ph_item_rate_type = Numeric \<rparr>] \<rparr>],
                ph_items =
                  [\<lparr> ph_item_id = 2, section_item_no = JNum (Fin 12),
                     ph_dimension = Some ''20'', ph_item_unit = None,
                     ph_item_rate = JNum (Fin 14), ph_item_rate_type = Numeric \<rparr>],
                ph_notes = [] \<rparr>] \<rparr>"
  by code_simp



subsection \<open>The header test\<close>





















end
